theory Spec2Isabelle
  imports Main "HOL-Library.Word" "HOL-Library.Sublist" "HOL-Library.Multiset"
begin

unbundle bit_operations_syntax

section \<open>Python strings\<close>

text \<open>
  A Python \<open>str\<close> is modelled as a \<open>string\<close>, read as the UTF-8 bytes of the text.
  Splitting, joining and stripping at an ASCII character are the same on the bytes as on the
  text. \<open>str.lower()\<close> and \<open>str.strip()\<close> follow the Unicode tables of the runtime and
  are taken from the environment (\<open>str_lower\<close> and \<open>str_strip\<close> below); \<open>py_lower\<close> and
  \<open>py_strip\<close> are what they do on ASCII text: \<open>A..Z\<close> to \<open>a..z\<close>, and the ASCII white
  space of \<open>str.isspace\<close> removed at both ends.
\<close>

datatype error =
    ValueError string
  | RemoteError string
  | FileSystemError string
  | HTTPError string
  | IndexError string
  | HostError string

definition is_space :: "char \<Rightarrow> bool" where
  "is_space c = (c \<in> set [CHR 0x09, CHR 0x0A, CHR 0x0B, CHR 0x0C, CHR 0x0D,
                              CHR 0x1C, CHR 0x1D, CHR 0x1E, CHR 0x1F, CHR 0x20])"

definition py_lstrip :: "(char \<Rightarrow> bool) \<Rightarrow> string \<Rightarrow> string" where
  "py_lstrip P s = dropWhile P s"

definition py_rstrip :: "(char \<Rightarrow> bool) \<Rightarrow> string \<Rightarrow> string" where
  "py_rstrip P s = rev (dropWhile P (rev s))"

definition py_strip_with :: "(char \<Rightarrow> bool) \<Rightarrow> string \<Rightarrow> string" where
  "py_strip_with P s = py_rstrip P (py_lstrip P s)"

text \<open>\<open>s.strip()\<close>\<close>
definition py_strip :: "string \<Rightarrow> string" where
  "py_strip s = py_strip_with is_space s"

text \<open>\<open>s.strip('/')\<close> and \<open>s.rstrip('/')\<close>\<close>
definition strip_slash :: "string \<Rightarrow> string" where
  "strip_slash s = py_strip_with (\<lambda>c. c = CHR ''/'') s"

definition rstrip_slash :: "string \<Rightarrow> string" where
  "rstrip_slash s = py_rstrip (\<lambda>c. c = CHR ''/'') s"

text \<open>\<open>s.split(sep)\<close> for a separator of one character: never the empty list.\<close>
fun py_split :: "char \<Rightarrow> string \<Rightarrow> string list" where
  "py_split sep [] = [[]]"
| "py_split sep (c # cs) =
     (if c = sep then [] # py_split sep cs
      else (case py_split sep cs of [] \<Rightarrow> [[c]] | w # ws \<Rightarrow> (c # w) # ws))"

text \<open>\<open>s.split(sep, 1)\<close>: at most one cut, at the first separator.\<close>
definition py_split1 :: "char \<Rightarrow> string \<Rightarrow> string list" where
  "py_split1 sep s =
     (if sep \<in> set s
      then [takeWhile (\<lambda>c. c \<noteq> sep) s, tl (dropWhile (\<lambda>c. c \<noteq> sep) s)]
      else [s])"

text \<open>\<open>sep.join(xs)\<close>\<close>
fun py_join :: "string \<Rightarrow> string list \<Rightarrow> string" where
  "py_join sep [] = []"
| "py_join sep [x] = x"
| "py_join sep (x # y # ys) = x @ sep @ py_join sep (y # ys)"

definition lower_char :: "char \<Rightarrow> char" where
  "lower_char c =
     (let n = (of_char c :: nat) in if 65 \<le> n \<and> n \<le> 90 then char_of (n + 32) else c)"

text \<open>\<open>s.lower()\<close>\<close>
definition py_lower :: "string \<Rightarrow> string" where
  "py_lower s = map lower_char s"

text \<open>\<open>s.startswith(p)\<close>\<close>
definition startswith :: "string \<Rightarrow> string \<Rightarrow> bool" where
  "startswith s p = (take (length p) s = p)"

text \<open>\<open>s.rfind('.')\<close>: the index of the last dot, or \<open>-1\<close>.\<close>
definition rfind_dot :: "string \<Rightarrow> int" where
  "rfind_dot s =
     (if CHR ''.'' \<in> set s
      then int (length s) - 1 - int (length (takeWhile (\<lambda>c. c \<noteq> CHR ''.'') (rev s)))
      else - 1)"

section \<open>pathlib: pure POSIX paths of Python 3.12\<close>

text \<open>
  The plugin refuses to start below Python 3.12, so \<open>Path\<close> is the 3.12 \<open>PurePosixPath\<close>:
  a root (\<open>''''\<close>, \<open>''/''\<close> or \<open>''//''\<close>) and the list of components, in which empty
  components and \<open>.\<close> are dropped and \<open>..\<close> is kept.
\<close>

datatype ppath = PurePath (root: string) (tail: "string list")

definition splitroot :: "string \<Rightarrow> string \<times> string" where
  "splitroot p =
     (if take 1 p \<noteq> ''/'' then ('''', p)
      else if take 1 (drop 1 p) \<noteq> ''/'' \<or> take 1 (drop 2 p) = ''/'' then (''/'', drop 1 p)
      else (''//'', drop 2 p))"

definition parse_tail :: "string \<Rightarrow> string list" where
  "parse_tail rel = filter (\<lambda>x. x \<noteq> [] \<and> x \<noteq> ''.'') (py_split CHR ''/'' rel)"

text \<open>\<open>Path(s)\<close>\<close>
definition Path :: "string \<Rightarrow> ppath" where
  "Path s = (case splitroot s of (r, rel) \<Rightarrow> PurePath r (parse_tail rel))"

text \<open>\<open>str(p)\<close>\<close>
definition path_str :: "ppath \<Rightarrow> string" where
  "path_str p =
     (if root p = [] \<and> tail p = [] then ''.'' else root p @ py_join ''/'' (tail p))"

text \<open>\<open>p / q\<close> for a path \<open>q\<close>, and \<open>p / s\<close> for a string \<open>s\<close>: a rooted right operand wins.\<close>
definition joinpath :: "ppath \<Rightarrow> ppath \<Rightarrow> ppath" where
  "joinpath p q = (if root q \<noteq> [] then q else PurePath (root p) (tail p @ tail q))"

definition joinpath_str :: "ppath \<Rightarrow> string \<Rightarrow> ppath" where
  "joinpath_str p s = joinpath p (Path s)"

text \<open>\<open>p.relative_to(other)\<close> raises \<open>ValueError\<close> unless \<open>other\<close> is \<open>p\<close> or an ancestor.\<close>
definition relative_to :: "ppath \<Rightarrow> ppath \<Rightarrow> error + ppath" where
  "relative_to p other =
     (if root p = root other \<and> prefix (tail other) (tail p)
      then Inr (PurePath [] (drop (length (tail other)) (tail p)))
      else Inl (ValueError (path_str p)))"

definition parent :: "ppath \<Rightarrow> ppath" where
  "parent p = (if tail p = [] then p else PurePath (root p) (butlast (tail p)))"

definition name :: "ppath \<Rightarrow> string" where
  "name p = (if tail p = [] then [] else last (tail p))"

definition has_suffix :: "string \<Rightarrow> bool" where
  "has_suffix n = (0 < rfind_dot n \<and> rfind_dot n < int (length n) - 1)"

definition suffix_of :: "ppath \<Rightarrow> string" where
  "suffix_of p =
     (let n = name p in if has_suffix n then drop (nat (rfind_dot n)) n else [])"

definition stem :: "ppath \<Rightarrow> string" where
  "stem p =
     (let n = name p in if has_suffix n then take (nat (rfind_dot n)) n else n)"

section \<open>Plugin configuration\<close>

text \<open>
  The fields of \<open>p123linker\<close> that the sync passes read. A field that is \<open>None\<close> or the
  empty string in Python is the empty string here: the code only ever tests \<open>not field\<close>.
\<close>

record config =
  enabled :: bool
  full_sync_strm_paths :: string
  uid :: string
  secret_key :: string
  expire_time :: int
  custom_domain :: string
  user_rmt_mediaext :: string
  user_download_mediaext :: string
  full_sync_auto_download_mediainfo_enabled :: bool

section \<open>hashlib.md5, urllib.parse.quote and unquote, decimal integers\<close>

text \<open>
  \<open>hashlib.md5(s.encode()).hexdigest()\<close>: MD5 as RFC 1321 defines it, over the bytes of
  the string, printed as 32 lower-case hexadecimal digits.
\<close>

type_synonym md5_state = "32 word \<times> 32 word \<times> 32 word \<times> 32 word"

definition md5_shift :: "nat list" where
  "md5_shift =
     [7, 12, 17, 22, 7, 12, 17, 22, 7, 12, 17, 22, 7, 12, 17, 22,
      5, 9, 14, 20, 5, 9, 14, 20, 5, 9, 14, 20, 5, 9, 14, 20,
      4, 11, 16, 23, 4, 11, 16, 23, 4, 11, 16, 23, 4, 11, 16, 23,
      6, 10, 15, 21, 6, 10, 15, 21, 6, 10, 15, 21, 6, 10, 15, 21]"

definition md5_sine :: "32 word list" where
  "md5_sine =
     [0xd76aa478, 0xe8c7b756, 0x242070db, 0xc1bdceee, 0xf57c0faf, 0x4787c62a, 0xa8304613, 0xfd469501,
      0x698098d8, 0x8b44f7af, 0xffff5bb1, 0x895cd7be, 0x6b901122, 0xfd987193, 0xa679438e, 0x49b40821,
      0xf61e2562, 0xc040b340, 0x265e5a51, 0xe9b6c7aa, 0xd62f105d, 0x02441453, 0xd8a1e681, 0xe7d3fbc8,
      0x21e1cde6, 0xc33707d6, 0xf4d50d87, 0x455a14ed, 0xa9e3e905, 0xfcefa3f8, 0x676f02d9, 0x8d2a4c8a,
      0xfffa3942, 0x8771f681, 0x6d9d6122, 0xfde5380c, 0xa4beea44, 0x4bdecfa9, 0xf6bb4b60, 0xbebfbc70,
      0x289b7ec6, 0xeaa127fa, 0xd4ef3085, 0x04881d05, 0xd9d4d039, 0xe6db99e5, 0x1fa27cf8, 0xc4ac5665,
      0xf4292244, 0x432aff97, 0xab9423a7, 0xfc93a039, 0x655b59c3, 0x8f0ccc92, 0xffeff47d, 0x85845dd1,
      0x6fa87e4f, 0xfe2ce6e0, 0xa3014314, 0x4e0811a1, 0xf7537e82, 0xbd3af235, 0x2ad7d2bb, 0xeb86d391]"

definition md5_pad :: "8 word list \<Rightarrow> 8 word list" where
  "md5_pad m =
     m @ [0x80] @ replicate ((119 - length m mod 64) mod 64) 0
       @ map (\<lambda>i. ucast (drop_bit (8 * i) (word_of_nat (8 * length m) :: 64 word))) [0..<8]"

definition le32 :: "8 word list \<Rightarrow> 32 word" where
  "le32 bs = foldr (\<lambda>b w. ucast b OR push_bit 8 w) bs 0"

definition block_words :: "8 word list \<Rightarrow> 32 word list" where
  "block_words blk = map (\<lambda>i. le32 (take 4 (drop (4 * i) blk))) [0..<16]"

definition md5_round :: "32 word list \<Rightarrow> md5_state \<Rightarrow> nat \<Rightarrow> md5_state" where
  "md5_round M st i =
     (case st of (a, b, c, d) \<Rightarrow>
        let (f, g) =
              (if i < 16 then ((b AND c) OR (NOT b AND d), i)
               else if i < 32 then ((d AND b) OR (NOT d AND c), (5 * i + 1) mod 16)
               else if i < 48 then (b XOR c XOR d, (3 * i + 5) mod 16)
               else (c XOR (b OR NOT d), (7 * i) mod 16));
            f' = f + a + md5_sine ! i + M ! g
        in (d, b + word_rotl (md5_shift ! i) f', b, c))"

definition md5_block :: "8 word list \<Rightarrow> md5_state \<Rightarrow> md5_state" where
  "md5_block blk st =
     (case st of (a0, b0, c0, d0) \<Rightarrow>
        case foldl (md5_round (block_words blk)) st [0..<64] of (a, b, c, d) \<Rightarrow>
          (a0 + a, b0 + b, c0 + c, d0 + d))"

fun md5_blocks :: "nat \<Rightarrow> 8 word list \<Rightarrow> md5_state \<Rightarrow> md5_state" where
  "md5_blocks 0 bs st = st"
| "md5_blocks (Suc n) bs st = md5_blocks n (drop 64 bs) (md5_block (take 64 bs) st)"

definition hex_digit :: "nat \<Rightarrow> char" where
  "hex_digit n = ''0123456789abcdef'' ! (n mod 16)"

definition hex_byte :: "8 word \<Rightarrow> string" where
  "hex_byte b = [hex_digit (unat b div 16), hex_digit (unat b mod 16)]"

definition hex_le32 :: "32 word \<Rightarrow> string" where
  "hex_le32 w = concat (map (\<lambda>i. hex_byte (ucast (drop_bit (8 * i) w))) [0..<4])"

definition md5_hexdigest :: "string \<Rightarrow> string" where
  "md5_hexdigest s =
     (let bs = md5_pad (map of_char s) in
      case md5_blocks (length bs div 64) bs (0x67452301, 0xefcdab89, 0x98badcfe, 0x10325476)
      of (a, b, c, d) \<Rightarrow> hex_le32 a @ hex_le32 b @ hex_le32 c @ hex_le32 d)"

text \<open>\<open>str(n)\<close> of an \<open>int\<close>, as an f-string prints it.\<close>
function show_digits :: "int \<Rightarrow> string" where
  "show_digits n =
     (if n < 10 then [char_of (48 + n)] else show_digits (n div 10) @ [char_of (48 + n mod 10)])"
  by pat_completeness auto
termination
  by (relation "measure nat") auto

declare show_digits.simps [simp del]

definition show_int :: "int \<Rightarrow> string" where
  "show_int i = (if i < 0 then ''-'' @ show_digits (- i) else show_digits i)"

definition is_hex :: "char \<Rightarrow> bool" where
  "is_hex c = (c \<in> set ''0123456789abcdefABCDEF'')"

definition hex_val :: "char \<Rightarrow> nat" where
  "hex_val c =
     (let n = (of_char c :: nat)
      in if 48 \<le> n \<and> n \<le> 57 then n - 48 else if 97 \<le> n then n - 87 else n - 55)"

text \<open>
  \<open>urllib.parse.unquote\<close>: every \<open>%XX\<close> with two hexadecimal digits becomes the byte
  \<open>XX\<close>, any other \<open>%\<close> stays. (The library then decodes the bytes as UTF-8 and replaces
  what is not; on the bytes of valid text, as \<open>quote\<close> produces them, that changes nothing.)
\<close>
fun unquote :: "string \<Rightarrow> string" where
  "unquote (c # a # b # rest) =
     (if c = CHR ''%'' \<and> is_hex a \<and> is_hex b
      then char_of (16 * hex_val a + hex_val b) # unquote rest
      else c # unquote (a # b # rest))"
| "unquote cs = cs"

definition quote_safe :: "char \<Rightarrow> bool" where
  "quote_safe c =
     (c \<in> set ''ABCDEFGHIJKLMNOPQRSTUVWXYZabcdefghijklmnopqrstuvwxyz0123456789_.-~/'')"

definition upper_hex_digit :: "nat \<Rightarrow> char" where
  "upper_hex_digit n = ''0123456789ABCDEF'' ! (n mod 16)"

text \<open>\<open>urllib.parse.quote(s)\<close> with its default \<open>safe='/'\<close>.\<close>
definition quote :: "string \<Rightarrow> string" where
  "quote s =
     concat (map (\<lambda>c. if quote_safe c then [c]
                       else [CHR ''%'', upper_hex_digit (of_char c div 16),
                             upper_hex_digit (of_char c mod 16)]) s)"

text \<open>\<open>random.randint(lo, hi)\<close>, from the raw value \<open>e\<close> the generator supplies.\<close>
definition randint :: "int \<Rightarrow> int \<Rightarrow> int \<Rightarrow> int" where
  "randint lo hi e = lo + e mod (hi - lo + 1)"

section \<open>The signed link\<close>

text \<open>
  \<open>p123linker._generate_auth_url\<close>. \<open>now\<close> is the value of \<open>int(time.time())\<close> and
  \<open>e\<close> the raw random value of this call.
\<close>
definition generate_auth_url :: "config \<Rightarrow> int \<Rightarrow> int \<Rightarrow> string \<Rightarrow> error + string" where
  "generate_auth_url cfg now e file_path =
     (if uid cfg = [] \<or> secret_key cfg = [] then Inl (ValueError ''uid or secret_key'')
      else if custom_domain cfg = [] then Inl (ValueError ''custom_domain'')
      else
        let expire_at = now + expire_time cfg * 60;
            rand = randint 0 (2 ^ 31 - 1) e;
            request_path = unquote (''/'' @ uid cfg @ ''/'' @ file_path);
            sign_str = request_path @ ''-'' @ show_int expire_at @ ''-'' @ show_int rand
                         @ ''-'' @ uid cfg @ ''-'' @ secret_key cfg;
            sign = md5_hexdigest sign_str;
            auth_key = show_int expire_at @ ''-'' @ show_int rand @ ''-'' @ uid cfg @ ''-'' @ sign;
            domain = rstrip_slash (custom_domain cfg);
            domain = (if startswith domain ''http://'' \<or> startswith domain ''https://''
                      then domain else ''https://'' @ domain);
            base_url = domain @ request_path
        in Inr (base_url @ ''?auth_key='' @ auth_key))"

section \<open>The remote drive\<close>

text \<open>
  One element of \<open>data.InfoList\<close> of a listing response. \<open>bool(item["Type"])\<close> tells a
  directory; \<open>UpdateTime\<close> may be absent (\<open>item.get("UpdateTime", 0)\<close>).
\<close>
record info =
  FileId :: int
  FileName :: string
  Type :: int
  Size :: int
  Etag :: string
  S3KeyFlag :: string
  UpdateTime :: "int option"

text \<open>
  The request of \<open>client.fs_list\<close>. \<open>iterdir\<close> sends a \<open>Page\<close>, the directory lookup of
  the sync passes does not. The cursor \<open>next\<close> is an integer; the response's \<open>Next\<close> is
  the text of one, \<open>"-1"\<close> after the last page, and is kept as the integer here.
  The field \<open>inDirectSpace\<close>, always \<open>"false"\<close>, is left out.
\<close>
record payload =
  limit :: int
  pnext :: int
  Page :: "int option"
  parentFileId :: int

record listing =
  InfoList :: "info list"
  Next :: int

text \<open>
  What a pass reads from outside: the three remote operations (\<open>Inl\<close> when the call or
  \<open>check_response\<close> raises), the storage resolver and API token of the host application, the
  clock and the random generator. \<open>time_at n\<close> is what the \<open>n\<close>-th reading of
  \<open>int(time.time())\<close> returns, \<open>random_at n\<close> the raw value of the \<open>n\<close>-th draw.

  \<open>str_lower\<close> and \<open>str_strip\<close> are \<open>str.lower()\<close> and \<open>str.strip()\<close> of the Python
  runtime, which follow its Unicode tables; on ASCII text they are \<open>py_lower\<close> and
  \<open>py_strip\<close>. \<open>update_config t\<close> is the host's \<open>update_config\<close> called to save the
  configuration with the sync time \<open>t\<close>, and \<open>fromtimestamp t\<close> is
  \<open>datetime.fromtimestamp(t)\<close> in a log line: each gives the exception it raises, if any
  (\<open>fromtimestamp\<close> raises \<open>ValueError\<close> for a time whose year is out of range).
\<close>
record env =
  fs_list :: "payload \<Rightarrow> error + listing"
  download_info :: "info \<Rightarrow> error + string"
  http_get :: "string \<Rightarrow> error + string"
  get_file_item :: "string \<Rightarrow> error + int"
  API_TOKEN :: string
  time_at :: "nat \<Rightarrow> int"
  random_at :: "nat \<Rightarrow> int"
  str_lower :: "string \<Rightarrow> string"
  str_strip :: "string \<Rightarrow> string"
  update_config :: "int \<Rightarrow> error option"
  fromtimestamp :: "int \<Rightarrow> error option"

section \<open>Classification by extension\<close>

text \<open>
  \<open>set(f".{ext.strip().lower()}" for ext in exts.split(','))\<close>, as both sync passes build
  it; only membership is ever asked of it, so a list stands for the set.
\<close>
definition ext_set :: "env \<Rightarrow> string \<Rightarrow> string list" where
  "ext_set ev exts =
     map (\<lambda>ext. ''.'' @ str_lower ev (str_strip ev ext)) (py_split CHR '','' exts)"

datatype category = Streamable | Sidecar | Ignored

text \<open>
  The branch taken by \<open>full_sync_strm_files\<close> and \<open>incremental_sync_files\<close> for an entry:
  \<open>file_ext = Path(item["FileName"]).suffix.lower()\<close>, then
  \<open>if file_ext in media_exts\<close> / \<open>elif auto_download and file_ext in data_exts\<close> / \<open>else\<close>.
\<close>
definition classify :: "env \<Rightarrow> config \<Rightarrow> string \<Rightarrow> category" where
  "classify ev cfg file_name =
     (let file_ext = str_lower ev (suffix_of (Path file_name));
          media_exts = ext_set ev (user_rmt_mediaext cfg);
          data_exts = ext_set ev (user_download_mediaext cfg)
      in if file_ext \<in> set media_exts then Streamable
         else if full_sync_auto_download_mediainfo_enabled cfg \<and> file_ext \<in> set data_exts
              then Sidecar
         else Ignored)"

section \<open>iterdir\<close>

text \<open>What \<open>iterdir\<close> yields: the listed item and the keys the generator adds.\<close>
record entry =
  raw :: info
  relpath :: string
  is_dir :: bool
  entry_id :: int
  parent_id :: int
  entry_name :: string
  entry_size :: "int option"
  md5 :: "string option"
  uri :: "string option"

definition item_path :: "string \<Rightarrow> info \<Rightarrow> string" where
  "item_path current_path item =
     (if current_path \<noteq> [] then current_path @ ''/'' @ FileName item else FileName item)"

definition make_entry :: "int \<Rightarrow> string \<Rightarrow> info \<Rightarrow> entry" where
  "make_entry current_parent_id current_path item =
     (if Type item \<noteq> 0
      then \<lparr>raw = item, relpath = item_path current_path item, is_dir = True,
            entry_id = FileId item, parent_id = current_parent_id, entry_name = FileName item,
            entry_size = None, md5 = None, uri = None\<rparr>
      else \<lparr>raw = item, relpath = item_path current_path item, is_dir = False,
            entry_id = FileId item, parent_id = current_parent_id, entry_name = FileName item,
            entry_size = Some (Size item), md5 = Some (Etag item),
            uri = Some (''123://'' @ quote (FileName item) @ ''|'' @ show_int (Size item)
                          @ ''|'' @ Etag item @ ''?'' @ S3KeyFlag item)\<rparr>)"

text \<open>The \<open>for item in item_list\<close> loop of one page: what it yields and what it enqueues.\<close>
definition page_yields :: "bool \<Rightarrow> int \<Rightarrow> string \<Rightarrow> info list \<Rightarrow> entry list" where
  "page_yields only_file current_parent_id current_path item_list =
     map (make_entry current_parent_id current_path)
       (filter (\<lambda>item. \<not> (Type item \<noteq> 0 \<and> only_file)) item_list)"

definition page_enqueues :: "string \<Rightarrow> info list \<Rightarrow> (int \<times> string) list" where
  "page_enqueues current_path item_list =
     map (\<lambda>item. (FileId item, item_path current_path item))
       (filter (\<lambda>item. Type item \<noteq> 0) item_list)"

text \<open>
  The inner \<open>while True\<close> loop over the pages of one directory. The result is what was
  yielded, what was appended to the queue, and the exception that ended the loop, if one
  did. A server that never sends the last page makes the loop run forever: \<open>None\<close>.
\<close>
partial_function (option) iterdir_pages ::
  "(payload \<Rightarrow> error + listing) \<Rightarrow> bool \<Rightarrow> int \<Rightarrow> string \<Rightarrow> int \<Rightarrow> int
     \<Rightarrow> (entry list \<times> (int \<times> string) list \<times> error option) option" where
  "iterdir_pages client_fs_list only_file current_parent_id current_path page nxt =
     (case client_fs_list \<lparr>limit = 100, pnext = nxt, Page = Some page,
                            parentFileId = current_parent_id\<rparr> of
        Inl e \<Rightarrow> Some ([], [], Some e)
      | Inr resp \<Rightarrow>
          if InfoList resp = [] then Some ([], [], None)
          else if Next resp = - 1
          then Some (page_yields only_file current_parent_id current_path (InfoList resp),
                     page_enqueues current_path (InfoList resp), None)
          else Option.bind
                 (iterdir_pages client_fs_list only_file current_parent_id current_path
                    (page + 1) (Next resp))
                 (\<lambda>r. Some (page_yields only_file current_parent_id current_path (InfoList resp)
                               @ fst r,
                             page_enqueues current_path (InfoList resp) @ fst (snd r),
                             snd (snd r))))"

text \<open>The outer \<open>while queue\<close> loop: the queue is a list, \<open>popleft\<close> takes its head.\<close>
partial_function (option) iterdir_queue ::
  "(payload \<Rightarrow> error + listing) \<Rightarrow> bool \<Rightarrow> (int \<times> string) list
     \<Rightarrow> (entry list \<times> error option) option" where
  "iterdir_queue client_fs_list only_file queue =
     (case queue of
        [] \<Rightarrow> Some ([], None)
      | q # rest \<Rightarrow>
          Option.bind (iterdir_pages client_fs_list only_file (fst q) (snd q) 1 0)
            (\<lambda>r. if snd (snd r) \<noteq> None then Some (fst r, snd (snd r))
                  else Option.bind (iterdir_queue client_fs_list only_file (rest @ fst (snd r)))
                         (\<lambda>r'. Some (fst r @ fst r', snd r'))))"

declare iterdir_pages.simps [code]
declare iterdir_queue.simps [code]

text \<open>
  \<open>iterdir(client, parent_id, interval, only_file)\<close>, the module's function and the static
  method of the plugin class alike (their bodies are the same text). The generator is run to
  its end: the entries it yields, in order, and the exception that stopped it, if any.
  \<open>interval\<close> only sleeps.
\<close>
definition iterdir ::
  "(payload \<Rightarrow> error + listing) \<Rightarrow> int \<Rightarrow> bool \<Rightarrow> (entry list \<times> error option) option" where
  "iterdir client_fs_list pid only_file =
     iterdir_queue client_fs_list only_file [(pid, [])]"

section \<open>The local file system\<close>

datatype fsnode = Dir | File string

type_synonym filesystem = "ppath \<Rightarrow> fsnode option"

definition is_directory :: "filesystem \<Rightarrow> ppath \<Rightarrow> bool" where
  "is_directory fs p = (tail p = [] \<or> fs p = Some Dir)"

text \<open>\<open>p.exists()\<close>\<close>
definition path_exists :: "filesystem \<Rightarrow> ppath \<Rightarrow> bool" where
  "path_exists fs p = (tail p = [] \<or> fs p \<noteq> None)"

definition ancestors_and_self :: "ppath \<Rightarrow> ppath list" where
  "ancestors_and_self p = map (\<lambda>k. PurePath (root p) (take k (tail p))) [1..<Suc (length (tail p))]"

text \<open>
  \<open>p.mkdir(parents=True, exist_ok=True)\<close>: raises when \<open>p\<close> or one of its ancestors is a
  file, and otherwise leaves \<open>p\<close> and all its ancestors directories.
\<close>
definition is_file :: "filesystem \<Rightarrow> ppath \<Rightarrow> bool" where
  "is_file fs p = (case fs p of Some (File c) \<Rightarrow> True | _ \<Rightarrow> False)"

definition mkdir_parents :: "filesystem \<Rightarrow> ppath \<Rightarrow> error + filesystem" where
  "mkdir_parents fs p =
     (if list_ex (is_file fs) (ancestors_and_self p)
      then Inl (FileSystemError (path_str p))
      else Inr (\<lambda>q. if q \<in> set (ancestors_and_self p) then Some Dir else fs q))"

text \<open>
  \<open>open(p, "w")\<close> or \<open>open(p, "wb")\<close> and the writes: raises unless the parent is a
  directory and \<open>p\<close> is not one; otherwise \<open>p\<close> holds exactly the content written.
\<close>
definition write_file :: "filesystem \<Rightarrow> ppath \<Rightarrow> string \<Rightarrow> error + filesystem" where
  "write_file fs p content =
     (if is_directory fs (parent p) \<and> \<not> is_directory fs p
      then Inr (fs(p \<mapsto> File content))
      else Inl (FileSystemError (path_str p)))"

section \<open>The sync passes of the plugin\<close>

text \<open>
  What a pass can change: the local files, the plugin's \<open>_last_sync_time\<close>, the copy of it
  that \<open>__update_config\<close> saves, and how many clock readings and random draws were used.
\<close>
record world =
  files :: filesystem
  last_sync_time :: int
  saved_last_sync_time :: int
  clock_reads :: nat
  random_draws :: nat

text \<open>The value a Python method returns: \<open>None\<close> (a bare \<open>return\<close>), \<open>True\<close> or \<open>False\<close>.\<close>
datatype result = RNone | RBool bool

text \<open>
  \<open>file_path = pan_path + "/" + item["relpath"]\<close>,
  \<open>file_path = Path(local_path) / Path(file_path).relative_to(pan_path)\<close>
\<close>
definition local_target :: "string \<Rightarrow> string \<Rightarrow> string \<Rightarrow> error + ppath" where
  "local_target local_path pan_path rel =
     (case relative_to (Path (pan_path @ ''/'' @ rel)) (Path pan_path) of
        Inl e \<Rightarrow> Inl e
      | Inr r \<Rightarrow> Inr (joinpath (Path local_path) r))"

text \<open>
  The one listing request the directory lookup of a pass sends for a path segment:
  \<open>fs_list({"limit": 100, "next": 0, "parentFileId": current_parent_id, \<dots>})\<close>.
\<close>
definition first_page :: "(payload \<Rightarrow> error + listing) \<Rightarrow> int \<Rightarrow> error + listing" where
  "first_page client_fs_list current_parent_id =
     client_fs_list \<lparr>limit = 100, pnext = 0, Page = None, parentFileId = current_parent_id\<rparr>"

text \<open>
  The directory lookup of a pass: for each segment that is not empty, that one request and
  the first directory of the segment's name in its \<open>InfoList\<close>; \<open>ValueError\<close> when
  there is none.
\<close>
fun resolve_dir_id :: "(payload \<Rightarrow> error + listing) \<Rightarrow> string list \<Rightarrow> int \<Rightarrow> error + int" where
  "resolve_dir_id client_fs_list [] current_parent_id = Inr current_parent_id"
| "resolve_dir_id client_fs_list (part # pan_path_parts) current_parent_id =
     (if part = [] then resolve_dir_id client_fs_list pan_path_parts current_parent_id
      else case first_page client_fs_list current_parent_id of
             Inl e \<Rightarrow> Inl e
           | Inr resp \<Rightarrow>
               (case find (\<lambda>item. FileName item = part \<and> Type item \<noteq> 0) (InfoList resp) of
                  None \<Rightarrow> Inl (ValueError part)
                | Some item \<Rightarrow> resolve_dir_id client_fs_list pan_path_parts (FileId item)))"

text \<open>
  The body of the \<open>try\<close> for one entry in \<open>full_sync_strm_files\<close>. Its \<open>except\<close> logs
  and goes on, so an exception leaves the world as it was when raised.
\<close>
definition sync_entry :: "env \<Rightarrow> config \<Rightarrow> string \<Rightarrow> string \<Rightarrow> entry \<Rightarrow> world \<Rightarrow> world" where
  "sync_entry ev cfg local_path pan_path item w =
     (case local_target local_path pan_path (relpath item) of
        Inl e \<Rightarrow> w
      | Inr file_path \<Rightarrow>
          let file_target_dir = parent file_path in
          (case mkdir_parents (files w) file_target_dir of
             Inl e \<Rightarrow> w
           | Inr fs1 \<Rightarrow>
               let w1 = w\<lparr>files := fs1\<rparr> in
               (case classify ev cfg (FileName (raw item)) of
                  Streamable \<Rightarrow>
                    let new_file_path = joinpath_str file_target_dir (stem file_path @ ''.strm'');
                        full_path = strip_slash (pan_path @ ''/'' @ relpath item);
                        encoded_path = quote full_path
                    in (case generate_auth_url cfg (time_at ev (clock_reads w1))
                               (random_at ev (random_draws w1)) encoded_path of
                          Inl e \<Rightarrow> w1
                        | Inr url \<Rightarrow>
                            let w2 = w1\<lparr>clock_reads := Suc (clock_reads w1),
                                         random_draws := Suc (random_draws w1)\<rparr>
                            in (case write_file (files w2) new_file_path url of
                                  Inl e \<Rightarrow> w2
                                | Inr fs2 \<Rightarrow> w2\<lparr>files := fs2\<rparr>))
                | Sidecar \<Rightarrow>
                    let new_file_path = joinpath_str file_target_dir (FileName (raw item))
                    in (case download_info ev (raw item) of
                          Inl e \<Rightarrow> w1
                        | Inr download_url \<Rightarrow>
                            (case http_get ev download_url of
                               Inl e \<Rightarrow> w1
                             | Inr content \<Rightarrow>
                                 (case write_file (files w1) new_file_path content of
                                    Inl e \<Rightarrow> w1
                                  | Inr fs2 \<Rightarrow> w1\<lparr>files := fs2\<rparr>)))
                | Ignored \<Rightarrow> w1)))"

text \<open>
  The same for \<open>incremental_sync_files\<close>, which first compares
  \<open>int(item.get("UpdateTime", 0))\<close> with \<open>_last_sync_time\<close>.
\<close>
definition update_time :: "entry \<Rightarrow> int" where
  "update_time item = (case UpdateTime (raw item) of None \<Rightarrow> 0 | Some t \<Rightarrow> t)"

definition sync_entry_incremental ::
  "env \<Rightarrow> config \<Rightarrow> string \<Rightarrow> string \<Rightarrow> entry \<Rightarrow> world \<Rightarrow> world" where
  "sync_entry_incremental ev cfg local_path pan_path item w =
     (if update_time item \<le> last_sync_time w then w
      else sync_entry ev cfg local_path pan_path item w)"

text \<open>The loop over the entries that \<open>iterdir\<close> yielded, in either pass.\<close>
definition sync_entries ::
  "bool \<Rightarrow> env \<Rightarrow> config \<Rightarrow> string \<Rightarrow> string \<Rightarrow> entry list \<Rightarrow> world \<Rightarrow> world" where
  "sync_entries incremental ev cfg local_path pan_path items w =
     foldl (\<lambda>w' item. if incremental
                         then sync_entry_incremental ev cfg local_path pan_path item w'
                         else sync_entry ev cfg local_path pan_path item w')
       w items"

text \<open>
  \<open>local_dir = Path(local_path)\<close>,
  \<open>if not local_dir.exists(): local_dir.mkdir(parents=True, exist_ok=True)\<close>
\<close>
definition ensure_local_dir :: "filesystem \<Rightarrow> string \<Rightarrow> error + filesystem" where
  "ensure_local_dir fs local_path =
     (if path_exists fs (Path local_path) then Inr fs else mkdir_parents fs (Path local_path))"

text \<open>
  One round of \<open>for path in paths\<close>; \<open>incremental\<close> selects the body of
  \<open>incremental_sync_files\<close>, which differs in the entry step only. The first component is
  the exception that leaves the round for the handler of the whole pass (only creating the
  local directory is outside the inner \<open>try\<close>); the lookup and the traversal raise inside
  it, where \<open>except\<close> logs and continues with the next path. Entries yielded before a
  traversal error have been handled by then.
\<close>
definition sync_pair ::
  "bool \<Rightarrow> env \<Rightarrow> config \<Rightarrow> string \<Rightarrow> world \<Rightarrow> (error option \<times> world) option" where
  "sync_pair incremental ev cfg path w =
     (if str_strip ev path = [] then Some (None, w)
      else
        let parts = py_split1 CHR ''#'' path in
        if length parts \<noteq> 2 then Some (None, w)
        else
          let local_path = parts ! 0; pan_path = parts ! 1 in
          case ensure_local_dir (files w) local_path of
            Inl e \<Rightarrow> Some (Some e, w)
          | Inr fs1 \<Rightarrow>
              let w1 = w\<lparr>files := fs1\<rparr>; pan_path = strip_slash pan_path in
              if pan_path = [] then Some (None, w1)
              else
                (case resolve_dir_id (fs_list ev) (py_split CHR ''/'' pan_path) 0 of
                   Inl e \<Rightarrow> Some (None, w1)
                 | Inr pid \<Rightarrow>
                     Option.bind (iterdir (fs_list ev) pid True)
                       (\<lambda>r. Some (None,
                                  sync_entries incremental ev cfg local_path pan_path (fst r) w1))))"

fun sync_pairs ::
  "bool \<Rightarrow> env \<Rightarrow> config \<Rightarrow> string list \<Rightarrow> world \<Rightarrow> (error option \<times> world) option" where
  "sync_pairs incremental ev cfg [] w = Some (None, w)"
| "sync_pairs incremental ev cfg (path # paths) w =
     Option.bind (sync_pair incremental ev cfg path w)
       (\<lambda>r. if fst r \<noteq> None then Some r else sync_pairs incremental ev cfg paths (snd r))"

text \<open>\<open>self._full_sync_strm_paths.strip().split('\n')\<close>\<close>
definition configured_paths :: "env \<Rightarrow> config \<Rightarrow> string list" where
  "configured_paths ev cfg = py_split CHR 0x0A (str_strip ev (full_sync_strm_paths cfg))"

text \<open>
  The end of a pass, inside its \<open>try\<close>: \<open>self._last_sync_time = t\<close>, then
  \<open>self.__update_config()\<close>, then the log line that prints the time, then
  \<open>return True\<close>. When saving or printing raises, the handler returns \<open>False\<close> and
  the assignment made before stays.
\<close>
definition finish_pass :: "env \<Rightarrow> int \<Rightarrow> world \<Rightarrow> result \<times> world" where
  "finish_pass ev t w =
     (let w1 = w\<lparr>last_sync_time := t\<rparr> in
      case update_config ev t of
        Some e \<Rightarrow> (RBool False, w1)
      | None \<Rightarrow>
          let w2 = w1\<lparr>saved_last_sync_time := t\<rparr> in
          (case fromtimestamp ev t of
             Some e \<Rightarrow> (RBool False, w2)
           | None \<Rightarrow> (RBool True, w2)))"

text \<open>\<open>p123linker.full_sync_strm_files\<close>\<close>
definition full_sync_strm_files :: "env \<Rightarrow> config \<Rightarrow> world \<Rightarrow> (result \<times> world) option" where
  "full_sync_strm_files ev cfg w =
     (if \<not> enabled cfg then Some (RNone, w)
      else if full_sync_strm_paths cfg = [] then Some (RNone, w)
      else if uid cfg = [] \<or> secret_key cfg = [] then Some (RNone, w)
      else
        Option.bind (sync_pairs False ev cfg (configured_paths ev cfg) w)
          (\<lambda>r. if fst r \<noteq> None then Some (RBool False, snd r)
                else
                  let w' = snd r; now = time_at ev (clock_reads w')
                  in Some (finish_pass ev now (w'\<lparr>clock_reads := Suc (clock_reads w')\<rparr>))))"

text \<open>
  \<open>p123linker.incremental_sync_files\<close>. Its \<open>try\<close> starts with a log line that prints
  the last sync time, reads the clock before the loop over the pairs, and ends as the full
  pass does, with the time read before the loop.
\<close>
definition incremental_sync_files :: "env \<Rightarrow> config \<Rightarrow> world \<Rightarrow> (result \<times> world) option" where
  "incremental_sync_files ev cfg w =
     (if \<not> enabled cfg then Some (RNone, w)
      else if full_sync_strm_paths cfg = [] then Some (RNone, w)
      else if uid cfg = [] \<or> secret_key cfg = [] then Some (RNone, w)
      else if last_sync_time w = 0
      then Option.bind (full_sync_strm_files ev cfg w) (\<lambda>r. Some (RNone, snd r))
      else if fromtimestamp ev (last_sync_time w) \<noteq> None then Some (RBool False, w)
      else
        let current_time = time_at ev (clock_reads w);
            w0 = w\<lparr>clock_reads := Suc (clock_reads w)\<rparr>
        in Option.bind (sync_pairs True ev cfg (configured_paths ev cfg) w0)
             (\<lambda>r. if fst r \<noteq> None then Some (RBool False, snd r)
                   else Some (finish_pass ev current_time (snd r))))"

section \<open>The helper class FullSyncStrmHelper\<close>

text \<open>
  The fields of \<open>FullSyncStrmHelper\<close> that \<open>generate_strm_files\<close> reads or counts in. The
  class is defined beside the plugin; it writes pointer files that hold a redirect URL of
  the host application instead of a signed link.
\<close>
record helper =
  rmt_mediaext :: "string list"
  download_mediaext :: "string list"
  auto_download_mediainfo :: bool
  strm_count :: nat
  mediainfo_count :: nat
  server_address :: string

text \<open>\<open>s.replace("\<dots>", ",")\<close> for the full-width comma, the bytes \<open>EF BC 8C\<close>.\<close>
fun replace_fullwidth_comma :: "string \<Rightarrow> string" where
  "replace_fullwidth_comma (a # b # c # rest) =
     (if a = CHR 0xEF \<and> b = CHR 0xBC \<and> c = CHR 0x8C
      then CHR '','' # replace_fullwidth_comma rest
      else a # replace_fullwidth_comma (b # c # rest))"
| "replace_fullwidth_comma cs = cs"

definition helper_ext_list :: "env \<Rightarrow> string \<Rightarrow> string list" where
  "helper_ext_list ev exts =
     map (\<lambda>ext. ''.'' @ str_strip ev ext) (py_split CHR '','' (replace_fullwidth_comma exts))"

text \<open>\<open>FullSyncStrmHelper.__init__\<close>\<close>
definition helper_init :: "env \<Rightarrow> string \<Rightarrow> string \<Rightarrow> string \<Rightarrow> bool \<Rightarrow> helper" where
  "helper_init ev user_rmt_mediaext' user_download_mediaext' server_address' auto =
     \<lparr>rmt_mediaext = helper_ext_list ev user_rmt_mediaext',
      download_mediaext = helper_ext_list ev user_download_mediaext',
      auto_download_mediainfo = auto, strm_count = 0, mediainfo_count = 0,
      server_address = rstrip_slash server_address'\<rparr>"

text \<open>
  The branch \<open>generate_strm_files\<close> takes for a local path: the sidecar test comes first
  and only when downloads are on, then \<open>file_path.suffix not in self.rmt_mediaext\<close>.
\<close>
definition helper_classify :: "helper \<Rightarrow> ppath \<Rightarrow> category" where
  "helper_classify h file_path =
     (if auto_download_mediainfo h \<and> suffix_of file_path \<in> set (download_mediaext h)
      then Sidecar
      else if suffix_of file_path \<notin> set (rmt_mediaext h) then Ignored
      else Streamable)"

text \<open>
  The body of the helper's loop for one entry. Nothing catches per entry here: the first
  component is the exception that ends the whole call, the second the state reached.
\<close>
definition helper_entry ::
  "env \<Rightarrow> string \<Rightarrow> string \<Rightarrow> entry \<Rightarrow> helper \<times> filesystem
     \<Rightarrow> error option \<times> helper \<times> filesystem" where
  "helper_entry ev pan_media_dir target_dir item st =
     (case relative_to (Path (pan_media_dir @ ''/'' @ relpath item)) (Path pan_media_dir) of
        Inl e \<Rightarrow> (Some e, st)
      | Inr r \<Rightarrow>
          let h = fst st; fs = snd st;
              file_path = joinpath (Path target_dir) r;
              file_target_dir = parent file_path;
              file_name = stem file_path @ ''.strm'';
              new_file_path = joinpath_str file_target_dir file_name
          in (case helper_classify h file_path of
                Sidecar \<Rightarrow>
                  (case download_info ev (raw item) of
                     Inl e \<Rightarrow> (Some e, st)
                   | Inr download_url \<Rightarrow>
                       if download_url = [] then (None, st)
                       else
                         (case mkdir_parents fs (parent file_path) of
                            Inl e \<Rightarrow> (Some e, st)
                          | Inr fs1 \<Rightarrow>
                              (case http_get ev download_url of
                                 Inl e \<Rightarrow> (Some e, h, fs1)
                               | Inr content \<Rightarrow>
                                   (case write_file fs1 file_path content of
                                      Inl e \<Rightarrow> (Some e, h, fs1)
                                    | Inr fs2 \<Rightarrow>
                                        (None, h\<lparr>mediainfo_count := Suc (mediainfo_count h)\<rparr>,
                                         fs2)))))
              | Ignored \<Rightarrow> (None, st)
              | Streamable \<Rightarrow>
                  (case mkdir_parents fs (parent new_file_path) of
                     Inl e \<Rightarrow> (Some e, st)
                   | Inr fs1 \<Rightarrow>
                       let strm_url =
                             server_address h
                               @ ''/api/v1/plugin/p123linker/redirect_url?apikey='' @ API_TOKEN ev
                               @ ''&name='' @ FileName (raw item)
                               @ ''&size='' @ show_int (Size (raw item))
                               @ ''&md5='' @ Etag (raw item)
                               @ ''&s3_key_flag='' @ S3KeyFlag (raw item)
                       in (case write_file fs1 new_file_path strm_url of
                             Inl e \<Rightarrow> (Some e, h, fs1)
                           | Inr fs2 \<Rightarrow> (None, h\<lparr>strm_count := Suc (strm_count h)\<rparr>, fs2)))))"

fun helper_entries ::
  "env \<Rightarrow> string \<Rightarrow> string \<Rightarrow> entry list \<Rightarrow> helper \<times> filesystem
     \<Rightarrow> error option \<times> helper \<times> filesystem" where
  "helper_entries ev pan_media_dir target_dir [] st = (None, st)"
| "helper_entries ev pan_media_dir target_dir (item # items) st =
     (case helper_entry ev pan_media_dir target_dir item st of
        (Some e, st') \<Rightarrow> (Some e, st')
      | (None, st') \<Rightarrow> helper_entries ev pan_media_dir target_dir items st')"

text \<open>
  The loop \<open>for path in media_paths\<close> of \<open>FullSyncStrmHelper.generate_strm_files\<close>.
  \<open>Inr b\<close> is \<open>return b\<close>; \<open>Inl\<close> is the \<open>IndexError\<close> of \<open>parts[1]\<close> on a line without
  \<open>#\<close>, which no handler of the method catches.
\<close>
fun helper_pairs ::
  "env \<Rightarrow> string list \<Rightarrow> helper \<times> filesystem
     \<Rightarrow> ((error + bool) \<times> helper \<times> filesystem) option" where
  "helper_pairs ev [] st = Some (Inr True, st)"
| "helper_pairs ev (path # media_paths) st =
     (if path = [] then helper_pairs ev media_paths st
      else
        let parts = py_split1 CHR ''#'' path in
        if length parts < 2 then Some (Inl (IndexError ''parts[1]''), st)
        else
          let pan_media_dir = parts ! 1; target_dir = parts ! 0 in
          (case get_file_item ev pan_media_dir of
             Inl e \<Rightarrow> Some (Inr False, st)
           | Inr pid \<Rightarrow>
               Option.bind (iterdir (fs_list ev) pid True)
                 (\<lambda>r. let done = helper_entries ev pan_media_dir target_dir (fst r) st in
                       if fst done \<noteq> None \<or> snd r \<noteq> None then Some (Inr False, snd done)
                       else helper_pairs ev media_paths (snd done))))"

definition generate_strm_files ::
  "env \<Rightarrow> string \<Rightarrow> helper \<times> filesystem \<Rightarrow> ((error + bool) \<times> helper \<times> filesystem) option" where
  "generate_strm_files ev full_sync_strm_paths' st =
     helper_pairs ev (py_split CHR 0x0A full_sync_strm_paths') st"

section \<open>Remote directory trees\<close>

text \<open>
  A finite directory tree of the drive: a file, or a directory with its children in listing
  order. \<open>info_of\<close> is the item the drive lists for a node, its \<open>Type\<close> set by the kind of
  the node.
\<close>
datatype rnode = RFile info | RDir info "rnode list"

fun info_of :: "rnode \<Rightarrow> info" where
  "info_of (RFile i) = i\<lparr>Type := 0\<rparr>"
| "info_of (RDir i cs) = i\<lparr>Type := 1\<rparr>"

text \<open>Every directory of a forest, by id, with its children.\<close>
fun dirs_of :: "rnode list \<Rightarrow> (int \<times> rnode list) list" where
  "dirs_of [] = []"
| "dirs_of (RFile i # ns) = dirs_of ns"
| "dirs_of (RDir i cs # ns) = (FileId i, cs) # dirs_of cs @ dirs_of ns"

text \<open>
  Modelled from the spec: the listing operation of the remote drive, which belongs to the
  client library and not to the repository, serving the tree whose root directory has the id
  \<open>root_id\<close> and the children \<open>forest\<close>. As the spec has it,
  \<open>list_directory(parent_id, page_cursor)\<close> returns a page of entries and the next cursor
  or the end sentinel; the cursor is the offset of the page here.
\<close>
definition tree_fs_list :: "int \<Rightarrow> rnode list \<Rightarrow> payload \<Rightarrow> error + listing" where
  "tree_fs_list root_id forest pl =
     (case map_of ((root_id, forest) # dirs_of forest) (parentFileId pl) of
        None \<Rightarrow> Inl (RemoteError ''no such directory'')
      | Some cs \<Rightarrow>
          let off = nat (pnext pl); n = nat (limit pl)
          in Inr \<lparr>InfoList = map info_of (take n (drop off cs)),
                  Next = (if off + n < length cs then int (off + n) else - 1)\<rparr>)"

text \<open>
  Breadth-first level order, as the spec words it: a level is a list of directories, each
  with its id, its path from the traversal root and its children; the entries of all
  directories of a level come first, in order, then the next level, which holds the
  sub-directories of this one.
\<close>
fun entries_of :: "bool \<Rightarrow> int \<Rightarrow> string \<Rightarrow> rnode list \<Rightarrow> entry list" where
  "entries_of only_files pid p [] = []"
| "entries_of only_files pid p (RFile i # ns) =
     make_entry pid p (info_of (RFile i)) # entries_of only_files pid p ns"
| "entries_of only_files pid p (RDir i cs # ns) =
     (if only_files then entries_of only_files pid p ns
      else make_entry pid p (info_of (RDir i cs)) # entries_of only_files pid p ns)"

fun sub_dirs_of :: "string \<Rightarrow> rnode list \<Rightarrow> (int \<times> string \<times> rnode list) list" where
  "sub_dirs_of p [] = []"
| "sub_dirs_of p (RFile i # ns) = sub_dirs_of p ns"
| "sub_dirs_of p (RDir i cs # ns) =
     (FileId i, item_path p (info_of (RDir i cs)), cs) # sub_dirs_of p ns"

definition dir_entries :: "bool \<Rightarrow> int \<times> string \<times> rnode list \<Rightarrow> entry list" where
  "dir_entries only_files d = entries_of only_files (fst d) (fst (snd d)) (snd (snd d))"

definition sub_dirs :: "int \<times> string \<times> rnode list \<Rightarrow> (int \<times> string \<times> rnode list) list" where
  "sub_dirs d = sub_dirs_of (fst (snd d)) (snd (snd d))"

definition level_size :: "(int \<times> string \<times> rnode list) list \<Rightarrow> nat" where
  "level_size lvl = sum_list (map (\<lambda>d. Suc (size_list size (snd (snd d)))) lvl)"

function level_order :: "bool \<Rightarrow> (int \<times> string \<times> rnode list) list \<Rightarrow> entry list" where
  "level_order only_files lvl =
     (if lvl = [] then []
      else concat (map (dir_entries only_files) lvl)
             @ level_order only_files (concat (map sub_dirs lvl)))"
  by pat_completeness auto
termination
proof (relation "measure (\<lambda>(only_files, lvl). level_size lvl)")
  show "wf (measure (\<lambda>(only_files, lvl). level_size lvl))" by simp
next
  fix only_files :: bool and lvl :: "(int \<times> string \<times> rnode list) list"
  assume ne: "lvl \<noteq> []"
  have sub: "level_size (sub_dirs_of p cs) \<le> size_list size cs" for p cs
    by (induction p cs rule: sub_dirs_of.induct) (auto simp: level_size_def)
  have app: "level_size (xs @ ys) = level_size xs + level_size ys" for xs ys
    by (simp add: level_size_def)
  have bound: "level_size (concat (map sub_dirs ds))
          \<le> sum_list (map (\<lambda>d. size_list size (snd (snd d))) ds)" for ds
  proof (induction ds)
    case Nil
    show ?case by (simp add: level_size_def)
  next
    case (Cons d ds)
    have "level_size (concat (map sub_dirs (d # ds)))
            = level_size (sub_dirs_of (fst (snd d)) (snd (snd d)))
                + level_size (concat (map sub_dirs ds))"
      by (simp add: app sub_dirs_def)
    also have "\<dots> \<le> size_list size (snd (snd d))
                      + sum_list (map (\<lambda>d. size_list size (snd (snd d))) ds)"
      using Cons sub [of "fst (snd d)" "snd (snd d)"] by (rule_tac add_mono)
    finally show ?case by simp
  qed
  have le: "sum_list (map (\<lambda>d. size_list size (snd (snd d))) xs) \<le> level_size xs"
    for xs by (induction xs) (auto simp: level_size_def)
  have "sum_list (map (\<lambda>d. size_list size (snd (snd d))) lvl) < level_size lvl"
    using ne le [of "tl lvl"] by (cases lvl) (auto simp: level_size_def)
  with bound [of lvl] show "((only_files, concat (map sub_dirs lvl)), (only_files, lvl))
           \<in> measure (\<lambda>(only_files, lvl). level_size lvl)"
    by simp
qed

declare level_order.simps [simp del]

text \<open>
  The same traversal with the queue of the code, on the tree itself: the head directory's
  entries, then the rest of the queue with the head's sub-directories appended.
\<close>
function bfs_queue :: "bool \<Rightarrow> (int \<times> string \<times> rnode list) list \<Rightarrow> entry list" where
  "bfs_queue only_files [] = []"
| "bfs_queue only_files (d # queue) =
     dir_entries only_files d @ bfs_queue only_files (queue @ sub_dirs d)"
  by pat_completeness auto
termination
proof (relation "measure (\<lambda>(only_files, queue). level_size queue)")
  show "wf (measure (\<lambda>(only_files, queue). level_size queue))" by simp
next
  fix only_files :: bool and d :: "int \<times> string \<times> rnode list"
    and queue :: "(int \<times> string \<times> rnode list) list"
  have sub: "level_size (sub_dirs_of p cs) \<le> size_list size cs" for p cs
    by (induction p cs rule: sub_dirs_of.induct) (auto simp: level_size_def)
  have "level_size (queue @ sub_dirs d) = level_size queue + level_size (sub_dirs d)"
    by (simp add: level_size_def)
  also have "\<dots> < level_size (d # queue)"
    using sub [of "fst (snd d)" "snd (snd d)"] by (simp add: level_size_def sub_dirs_def)
  finally show "((only_files, queue @ sub_dirs d), (only_files, d # queue))
           \<in> measure (\<lambda>(only_files, queue). level_size queue)"
    by simp
qed

text \<open>Every node of a forest once, parents before children, with its path from the root.\<close>
fun all_entries :: "int \<Rightarrow> string \<Rightarrow> rnode list \<Rightarrow> entry list" where
  "all_entries pid p [] = []"
| "all_entries pid p (RFile i # ns) = make_entry pid p (info_of (RFile i)) # all_entries pid p ns"
| "all_entries pid p (RDir i cs # ns) =
     make_entry pid p (info_of (RDir i cs))
       # all_entries (FileId i) (item_path p (info_of (RDir i cs))) cs @ all_entries pid p ns"

text \<open>
  The names of all nodes of a forest, and the path of every node as the spec words it:
  the names from the traversal root down to the node, joined by slashes.
\<close>
fun node_names :: "rnode list \<Rightarrow> string list" where
  "node_names [] = []"
| "node_names (RFile i # ns) = FileName i # node_names ns"
| "node_names (RDir i cs # ns) = FileName i # node_names cs @ node_names ns"

fun joined_paths :: "string list \<Rightarrow> rnode list \<Rightarrow> string list" where
  "joined_paths upper [] = []"
| "joined_paths upper (RFile i # ns) =
     py_join ''/'' (upper @ [FileName i]) # joined_paths upper ns"
| "joined_paths upper (RDir i cs # ns) =
     py_join ''/'' (upper @ [FileName i])
       # joined_paths (upper @ [FileName i]) cs @ joined_paths upper ns"

text \<open>A directory of the traversal is one the drive knows: the root or one below it.\<close>
definition known :: "int \<Rightarrow> rnode list \<Rightarrow> int \<times> string \<times> rnode list \<Rightarrow> bool" where
  "known root_id forest d = ((fst d, snd (snd d)) \<in> set ((root_id, forest) # dirs_of forest))"

section \<open>The signed link as the spec words it\<close>

text \<open>
  The domain that \<open>_generate_auth_url\<close> puts in front: trailing slashes stripped, and
  \<open>https://\<close> added when no scheme is there.
\<close>
definition signing_domain :: "string \<Rightarrow> string" where
  "signing_domain d =
     (let domain = rstrip_slash d
      in if startswith domain ''http://'' \<or> startswith domain ''https://''
         then domain else ''https://'' @ domain)"

text \<open>
  The URL in the words of the spec, for a nonce already drawn:
  \<open>domain + request_path + "?auth_key=" + auth_key\<close> with
  \<open>request_path = "/" + uid + "/" + url_decode(path)\<close>.
\<close>
definition claimed_auth_url :: "config \<Rightarrow> int \<Rightarrow> int \<Rightarrow> string \<Rightarrow> string" where
  "claimed_auth_url cfg now nonce path =
     (let expire_at = now + expire_time cfg * 60;
          request_path = ''/'' @ uid cfg @ ''/'' @ unquote path;
          signature = md5_hexdigest (request_path @ ''-'' @ show_int expire_at @ ''-''
                        @ show_int nonce @ ''-'' @ uid cfg @ ''-'' @ secret_key cfg);
          auth_key = show_int expire_at @ ''-'' @ show_int nonce @ ''-'' @ uid cfg
                        @ ''-'' @ signature
      in custom_domain cfg @ request_path @ ''?auth_key='' @ auth_key)"

section \<open>Resolving and stripping a local path\<close>

text \<open>
  The round trip the spec asks of path mapping: resolve the local target of a relative path
  as the passes do, take the result relative to the local root, and print it.
\<close>
definition resolve_then_strip :: "string \<Rightarrow> string \<Rightarrow> string \<Rightarrow> error + string" where
  "resolve_then_strip local_root pan_path rel =
     (case local_target local_root pan_path rel of
        Inl e \<Rightarrow> Inl e
      | Inr t \<Rightarrow> (case relative_to t (Path local_root) of
                     Inl e \<Rightarrow> Inl e
                   | Inr r \<Rightarrow> Inr (path_str r)))"

text \<open>A relative path in normal form: not empty, and no segment empty or \<open>.\<close>.\<close>
definition normal_relpath :: "string \<Rightarrow> bool" where
  "normal_relpath rel =
     (rel \<noteq> [] \<and> list_all (\<lambda>seg. seg \<noteq> [] \<and> seg \<noteq> ''.'') (py_split CHR ''/'' rel))"

section \<open>The files an entry step writes\<close>



definition encoded_path :: "string \<Rightarrow> entry \<Rightarrow> string" where
  "encoded_path pan_path item = quote (strip_slash (pan_path @ ''/'' @ relpath item))"

text \<open>Text of ASCII characters only, on which the runtime's string methods are the ASCII ones.\<close>
definition is_ascii :: "string \<Rightarrow> bool" where
  "is_ascii s = list_all (\<lambda>c. (of_char c :: nat) < 128) s"

definition ascii_runtime :: "env \<Rightarrow> bool" where
  "ascii_runtime ev =
     (\<forall>s. is_ascii s \<longrightarrow> str_lower ev s = py_lower s \<and> str_strip ev s = py_strip s)"

section \<open>Example data\<close>

definition example_config :: config where
  "example_config =
     \<lparr>enabled = True, full_sync_strm_paths = ''/local/movies#/media/movies'',
      uid = ''1815309870'', secret_key = ''s3cret'', expire_time = 10,
      custom_domain = ''vip.123pan.cn'', user_rmt_mediaext = ''mp4,mkv'',
      user_download_mediaext = ''nfo,jpg'',
      full_sync_auto_download_mediainfo_enabled = False\<rparr>"

definition example_forest :: "rnode list" where
  "example_forest =
     [RDir \<lparr>FileId = 10, FileName = ''media'', Type = 1, Size = 0, Etag = [], S3KeyFlag = [],
            UpdateTime = Some 100\<rparr>
        [RDir \<lparr>FileId = 11, FileName = ''movies'', Type = 1, Size = 0, Etag = [],
               S3KeyFlag = [], UpdateTime = Some 100\<rparr>
           [RFile \<lparr>FileId = 12, FileName = ''A.mkv'', Type = 0, Size = 100, Etag = ''h1'',
                   S3KeyFlag = ''k1'', UpdateTime = Some 300\<rparr>,
            RFile \<lparr>FileId = 13, FileName = ''A.nfo'', Type = 0, Size = 7, Etag = ''h2'',
                   S3KeyFlag = ''k2'', UpdateTime = Some 100\<rparr>]]]"

definition example_env :: env where
  "example_env =
     \<lparr>fs_list = tree_fs_list 0 example_forest,
      download_info = (\<lambda>i. Inr (''https://download.example/'' @ FileName i)),
      http_get = (\<lambda>u. Inr (''content of '' @ u)),
      get_file_item = (\<lambda>p. if p = ''/media/movies'' then Inr 11
                              else Inl (RemoteError ''no such path'')),
      API_TOKEN = ''token'',
      time_at = (\<lambda>n. 1700000000 + int n),
      random_at = (\<lambda>n. 12345),
      str_lower = py_lower,
      str_strip = py_strip,
      update_config = (\<lambda>t. None),
      fromtimestamp = (\<lambda>t. None)\<rparr>"

definition example_helper :: helper where
  "example_helper =
     helper_init example_env ''mp4,mkv'' ''nfo,jpg'' ''http://moviepilot:3000/'' False"

definition example_world :: world where
  "example_world =
     \<lparr>files = (\<lambda>p. None), last_sync_time = 0, saved_last_sync_time = 0,
      clock_reads = 0, random_draws = 0\<rparr>"

text \<open>What a file system holds at the path that a string names.\<close>
definition lookup_file :: "string \<Rightarrow> filesystem \<Rightarrow> fsnode option" where
  "lookup_file s fs = fs (Path s)"

definition sidecar_config :: config where
  "sidecar_config =
     example_config\<lparr>user_rmt_mediaext := ''mp4'',
                     full_sync_auto_download_mediainfo_enabled := True\<rparr>"

definition synced_world :: world where
  "synced_world = example_world\<lparr>last_sync_time := 200, saved_last_sync_time := 200\<rparr>"

text \<open>A world in which \<open>/local\<close> is a file, so that no directory can be made below it.\<close>
definition blocked_world :: world where
  "blocked_world =
     \<lparr>files = (\<lambda>p. if p = PurePath ''/'' [''local''] then Some (File ''not a directory'')
                     else None),
      last_sync_time = 200, saved_last_sync_time = 200, clock_reads = 0, random_draws = 0\<rparr>"

text \<open>A drive whose listing of directory \<open>11\<close> fails.\<close>
definition failing_env :: env where
  "failing_env =
     example_env\<lparr>fs_list := (\<lambda>pl. if parentFileId pl = 11
                                     then Inl (RemoteError ''listing failed'')
                                     else tree_fs_list 0 example_forest pl)\<rparr>"

text \<open>A root directory with a hundred files listed before the directory \<open>movies\<close>.\<close>
definition crowded_forest :: "rnode list" where
  "crowded_forest =
     map (\<lambda>k. RFile \<lparr>FileId = k, FileName = ''clip.mp4'', Type = 0, Size = 1, Etag = ''h'',
                      S3KeyFlag = ''k'', UpdateTime = Some 100\<rparr>)
       (map int [1..<101])
     @ [RDir \<lparr>FileId = 500, FileName = ''movies'', Type = 1, Size = 0, Etag = [],
              S3KeyFlag = [], UpdateTime = Some 100\<rparr> []]"

definition crowded_env :: env where
  "crowded_env = example_env\<lparr>fs_list := tree_fs_list 0 crowded_forest\<rparr>"

text \<open>A tree in which level order and depth-first order differ.\<close>
definition bfs_forest :: "rnode list" where
  "bfs_forest =
     [RDir \<lparr>FileId = 1, FileName = ''a'', Type = 1, Size = 0, Etag = [], S3KeyFlag = [],
            UpdateTime = None\<rparr>
        [RFile \<lparr>FileId = 2, FileName = ''a1.mkv'', Type = 0, Size = 1, Etag = ''h'',
                S3KeyFlag = ''k'', UpdateTime = None\<rparr>,
         RDir \<lparr>FileId = 3, FileName = ''a2'', Type = 1, Size = 0, Etag = [], S3KeyFlag = [],
                UpdateTime = None\<rparr>
           [RFile \<lparr>FileId = 4, FileName = ''x.mkv'', Type = 0, Size = 1, Etag = ''h'',
                   S3KeyFlag = ''k'', UpdateTime = None\<rparr>]],
      RFile \<lparr>FileId = 5, FileName = ''r1.mkv'', Type = 0, Size = 1, Etag = ''h'',
             S3KeyFlag = ''k'', UpdateTime = None\<rparr>,
      RDir \<lparr>FileId = 6, FileName = ''b'', Type = 1, Size = 0, Etag = [], S3KeyFlag = [],
            UpdateTime = None\<rparr>
        [RFile \<lparr>FileId = 7, FileName = ''b1.mkv'', Type = 0, Size = 1, Etag = ''h'',
                S3KeyFlag = ''k'', UpdateTime = None\<rparr>]]"



text \<open>A host whose \<open>update_config\<close> raises.\<close>
definition unsaved_env :: env where
  "unsaved_env = example_env\<lparr>update_config := (\<lambda>t. Some (HostError ''not saved''))\<rparr>"

section \<open>Properties: classification\<close>

lemma of_char_lower_char:
  "(of_char (lower_char c) :: nat) =
     (if 65 \<le> (of_char c :: nat) \<and> (of_char c :: nat) \<le> 90 then of_char c + 32 else of_char c)"
  by (simp add: lower_char_def Let_def)

lemma lower_char_eq_iff:
  assumes "(of_char d :: nat) < 65 \<or> (90 < (of_char d :: nat) \<and> (of_char d :: nat) < 97) \<or> 122 < (of_char d :: nat)"
  shows "lower_char c = d \<longleftrightarrow> c = d"
proof
  assume "lower_char c = d"
  then have "(of_char (lower_char c) :: nat) = of_char d" by simp
  with assms have "(of_char c :: nat) = of_char d"
    by (auto simp: of_char_lower_char split: if_splits)
  then show "c = d" by simp
next
  assume "c = d"
  with assms show "lower_char c = d" by (auto simp: lower_char_def Let_def)
qed

lemma lower_char_slash [simp]: "lower_char c = CHR ''/'' \<longleftrightarrow> c = CHR ''/''"
  by (rule lower_char_eq_iff) simp

lemma lower_char_dot [simp]: "lower_char c = CHR ''.'' \<longleftrightarrow> c = CHR ''.''"
  by (rule lower_char_eq_iff) simp

lemma lower_char_comma [simp]: "lower_char c = CHR '','' \<longleftrightarrow> c = CHR '',''"
  by (rule lower_char_eq_iff) simp

lemma is_space_lower_char [simp]: "is_space (lower_char c) = is_space c"
  unfolding is_space_def set_simps insert_iff empty_iff
  by (simp add: lower_char_eq_iff)

lemma lower_char_idem [simp]: "lower_char (lower_char c) = lower_char c"
proof -
  have "(of_char (lower_char (lower_char c)) :: nat) = of_char (lower_char c)"
    by (simp add: of_char_lower_char)
  then show ?thesis by (simp only: of_char_eq_iff)
qed

lemma py_lower_idem [simp]: "py_lower (py_lower s) = py_lower s"
  by (simp add: py_lower_def)

lemma py_split_nonempty [simp]: "py_split sep s \<noteq> []"
  by (cases s) (auto split: list.splits)

lemma py_split_map:
  assumes "\<And>c. f c = sep \<longleftrightarrow> c = sep"
  shows "py_split sep (map f s) = map (map f) (py_split sep s)"
  by (induction s) (auto simp: assms split: list.splits)

lemma py_strip_lower: "py_strip (py_lower s) = py_lower (py_strip s)"
  by (simp add: py_strip_def py_strip_with_def py_rstrip_def py_lstrip_def py_lower_def
        dropWhile_map rev_map comp_def)

lemma is_ascii_split: "is_ascii s \<Longrightarrow> x \<in> set (py_split sep s) \<Longrightarrow> is_ascii x"
proof (induction s arbitrary: x)
  case Nil
  then show ?case by (simp add: is_ascii_def)
next
  case (Cons c cs)
  obtain w ws where sp: "py_split sep cs = w # ws"
    by (cases "py_split sep cs") simp_all
  from Cons.prems(1) have c: "(of_char c :: nat) < 128" and cs: "is_ascii cs"
    by (simp_all add: is_ascii_def)
  have all: "\<And>y. y \<in> set (w # ws) \<Longrightarrow> is_ascii y"
    using Cons.IH [OF cs] sp by simp
  show ?case
  proof (cases "c = sep")
    case True
    with Cons.prems(2) sp have "x = [] \<or> x \<in> set (w # ws)" by auto
    then show ?thesis using all by (auto simp: is_ascii_def)
  next
    case False
    with Cons.prems(2) sp have "x = c # w \<or> x \<in> set ws" by auto
    then show ?thesis
    proof
      assume "x = c # w"
      moreover have "is_ascii w" using all by simp
      ultimately show ?thesis using c by (simp add: is_ascii_def)
    next
      assume "x \<in> set ws"
      then show ?thesis using all by simp
    qed
  qed
qed

lemma is_ascii_strip: "is_ascii s \<Longrightarrow> is_ascii (py_strip s)"
proof -
  assume a: "is_ascii s"
  have "set (py_strip s) \<subseteq> set s"
  proof
    fix x assume "x \<in> set (py_strip s)"
    then have "x \<in> set (dropWhile is_space (rev (dropWhile is_space s)))"
      by (simp add: py_strip_def py_strip_with_def py_rstrip_def py_lstrip_def)
    then have "x \<in> set (rev (dropWhile is_space s))" by (rule set_dropWhileD)
    then have "x \<in> set (dropWhile is_space s)" by simp
    then show "x \<in> set s" by (rule set_dropWhileD)
  qed
  with a show ?thesis by (auto simp: is_ascii_def list_all_iff)
qed

lemma ext_set_ascii:
  assumes "ascii_runtime ev" and "is_ascii exts"
  shows "ext_set ev exts
           = map (\<lambda>ext. ''.'' @ py_lower (py_strip ext)) (py_split CHR '','' exts)"
proof -
  have "str_lower ev (str_strip ev x) = py_lower (py_strip x)"
    if "x \<in> set (py_split CHR '','' exts)" for x
  proof -
    have x: "is_ascii x" using is_ascii_split [OF assms(2) that] .
    then have "str_strip ev x = py_strip x" using assms(1) by (simp add: ascii_runtime_def)
    moreover have "str_lower ev (py_strip x) = py_lower (py_strip x)"
      using assms(1) is_ascii_strip [OF x] by (simp add: ascii_runtime_def)
    ultimately show ?thesis by simp
  qed
  then show ?thesis by (simp add: ext_set_def)
qed

lemma ext_set_lower:
  assumes "ascii_runtime ev" and "is_ascii e1" and "is_ascii e2"
    and "py_lower e1 = py_lower e2"
  shows "ext_set ev e1 = ext_set ev e2"
proof -
  have sp: "py_split CHR '','' (py_lower exts) = map py_lower (py_split CHR '','' exts)" for exts
    unfolding py_lower_def by (rule py_split_map) simp
  have "map (\<lambda>ext. ''.'' @ py_lower (py_strip ext)) (py_split CHR '','' exts)
          = map (\<lambda>ext. ''.'' @ py_lower (py_strip ext)) (py_split CHR '','' (py_lower exts))"
    for exts
    by (simp add: sp comp_def py_strip_lower)
  then show ?thesis
    using assms(4) by (simp add: ext_set_ascii [OF assms(1)] assms(2,3)) metis
qed

lemma rfind_dot_lower: "rfind_dot (py_lower n) = rfind_dot n"
proof -
  have "(CHR ''.'' \<in> set (map lower_char n)) = (CHR ''.'' \<in> set n)"
    by (induction n) (auto simp: eq_commute [of "CHR ''.''"])
  then show ?thesis
    by (simp add: rfind_dot_def py_lower_def rev_map takeWhile_map comp_def)
qed

lemma has_suffix_lower: "has_suffix (py_lower n) = has_suffix n"
  by (simp add: has_suffix_def rfind_dot_lower) (simp add: py_lower_def)

lemma parse_tail_lower: "parse_tail (py_lower rel) = map py_lower (parse_tail rel)"
proof -
  have sp: "py_split CHR ''/'' (py_lower rel) = map py_lower (py_split CHR ''/'' rel)"
    unfolding py_lower_def by (rule py_split_map) simp
  have dot: "(map lower_char x = ''.'') = (x = ''.'')" for x
    by (cases x) auto
  show ?thesis
    by (simp add: parse_tail_def sp filter_map comp_def) (simp add: py_lower_def dot)
qed

lemma take1_lower: "(take (Suc 0) (py_lower p) = ''/'') = (take (Suc 0) p = ''/'')"
  by (cases p) (auto simp: py_lower_def)

lemma Path_lower:
  "Path (py_lower s) = PurePath (root (Path s)) (map py_lower (tail (Path s)))"
proof -
  have d: "drop k (py_lower s) = py_lower (drop k s)" for k
    by (simp add: py_lower_def drop_map)
  show ?thesis
    by (simp add: Path_def splitroot_def d take1_lower parse_tail_lower)
qed

lemma name_Path_lower: "name (Path (py_lower s)) = py_lower (name (Path s))"
  by (simp add: Path_lower name_def last_map) (simp add: py_lower_def)

lemma suffix_lower: "suffix_of (Path (py_lower s)) = py_lower (suffix_of (Path s))"
  by (simp add: suffix_of_def Let_def name_Path_lower has_suffix_lower rfind_dot_lower)
     (simp add: py_lower_def drop_map)

lemma file_ext_cong:
  assumes "py_lower n1 = py_lower n2"
  shows "py_lower (suffix_of (Path n1)) = py_lower (suffix_of (Path n2))"
proof -
  have "py_lower (suffix_of (Path n1)) = suffix_of (Path (py_lower n1))"
    by (simp add: suffix_lower)
  also have "\<dots> = suffix_of (Path (py_lower n2))"
    by (simp add: assms)
  also have "\<dots> = py_lower (suffix_of (Path n2))"
    by (simp add: suffix_lower)
  finally show ?thesis .
qed

lemma file_ext_ascii:
  assumes "ascii_runtime ev"
    and "is_ascii (suffix_of (Path n1))" and "is_ascii (suffix_of (Path n2))"
    and "py_lower n1 = py_lower n2"
  shows "str_lower ev (suffix_of (Path n1)) = str_lower ev (suffix_of (Path n2))"
  using assms(1-3) file_ext_cong [OF assms(4)] by (simp add: ascii_runtime_def)

text \<open>
  C6, for the two sync passes of the plugin. \<open>classify\<close> is a function into the three
  categories, so every file name gets exactly one of them. It sees the file name only through
  the lower-cased suffix: two names whose suffixes have the same \<open>str.lower()\<close> are
  classified alike, whatever the runtime's \<open>lower\<close> does. Where the runtime's \<open>lower\<close> and
  \<open>strip\<close> are the ASCII ones on ASCII text, file names with ASCII suffixes that agree after
  ASCII lower-casing (\<open>MOVIE.MKV\<close> and \<open>movie.mkv\<close>), under configurations whose two ASCII
  extension lists agree after ASCII lower-casing, are classified alike.
\<close>
theorem classify_case_insensitive:
  "(classify ev c1 n1 = Streamable \<or> classify ev c1 n1 = Sidecar \<or> classify ev c1 n1 = Ignored)
   \<and> (str_lower ev (suffix_of (Path n1)) = str_lower ev (suffix_of (Path n2))
        \<longrightarrow> classify ev c1 n1 = classify ev c1 n2)
   \<and> (ascii_runtime ev
        \<and> is_ascii (suffix_of (Path n1)) \<and> is_ascii (suffix_of (Path n2))
        \<and> py_lower n1 = py_lower n2
        \<and> is_ascii (user_rmt_mediaext c1) \<and> is_ascii (user_rmt_mediaext c2)
        \<and> py_lower (user_rmt_mediaext c1) = py_lower (user_rmt_mediaext c2)
        \<and> is_ascii (user_download_mediaext c1) \<and> is_ascii (user_download_mediaext c2)
        \<and> py_lower (user_download_mediaext c1) = py_lower (user_download_mediaext c2)
        \<and> full_sync_auto_download_mediainfo_enabled c1
             = full_sync_auto_download_mediainfo_enabled c2
        \<longrightarrow> classify ev c1 n1 = classify ev c2 n2)"
proof (intro conjI impI)
  show "classify ev c1 n1 = Streamable \<or> classify ev c1 n1 = Sidecar \<or> classify ev c1 n1 = Ignored"
    by (cases "classify ev c1 n1") simp_all
next
  assume "str_lower ev (suffix_of (Path n1)) = str_lower ev (suffix_of (Path n2))"
  then show "classify ev c1 n1 = classify ev c1 n2"
    by (simp add: classify_def Let_def)
next
  assume a: "ascii_runtime ev
        \<and> is_ascii (suffix_of (Path n1)) \<and> is_ascii (suffix_of (Path n2))
        \<and> py_lower n1 = py_lower n2
        \<and> is_ascii (user_rmt_mediaext c1) \<and> is_ascii (user_rmt_mediaext c2)
        \<and> py_lower (user_rmt_mediaext c1) = py_lower (user_rmt_mediaext c2)
        \<and> is_ascii (user_download_mediaext c1) \<and> is_ascii (user_download_mediaext c2)
        \<and> py_lower (user_download_mediaext c1) = py_lower (user_download_mediaext c2)
        \<and> full_sync_auto_download_mediainfo_enabled c1
             = full_sync_auto_download_mediainfo_enabled c2"
  then have m: "ext_set ev (user_rmt_mediaext c1) = ext_set ev (user_rmt_mediaext c2)"
    by (intro ext_set_lower) simp_all
  from a have d: "ext_set ev (user_download_mediaext c1) = ext_set ev (user_download_mediaext c2)"
    by (intro ext_set_lower) simp_all
  from a have f: "str_lower ev (suffix_of (Path n1)) = str_lower ev (suffix_of (Path n2))"
    by (intro file_ext_ascii) simp_all
  from a show "classify ev c1 n1 = classify ev c2 n2"
    by (simp add: classify_def Let_def m d f)
qed

theorem classify_case_insensitive_witness:
  "is_ascii (suffix_of (Path (CHR 0xC3 # CHR 0x89 # ''.MKV'')))
     \<and> py_lower (CHR 0xC3 # CHR 0x89 # ''.MKV'') = py_lower (CHR 0xC3 # CHR 0x89 # ''.mkv'')
     \<and> classify example_env example_config (CHR 0xC3 # CHR 0x89 # ''.MKV'')
         = classify example_env example_config (CHR 0xC3 # CHR 0x89 # ''.mkv'')
     \<and> classify example_env example_config (CHR 0xC3 # CHR 0x89 # ''.mkv'') = Streamable
     \<and> classify example_env example_config ''MOVIE.MKV''
         = classify example_env example_config ''movie.mkv''"
proof -
  have r: "ascii_runtime example_env"
    by (simp add: ascii_runtime_def example_env_def)
  have h: "is_ascii (suffix_of (Path (CHR 0xC3 # CHR 0x89 # ''.MKV'')))
             \<and> is_ascii (suffix_of (Path (CHR 0xC3 # CHR 0x89 # ''.mkv'')))
             \<and> py_lower (CHR 0xC3 # CHR 0x89 # ''.MKV'')
                 = py_lower (CHR 0xC3 # CHR 0x89 # ''.mkv'')
             \<and> is_ascii (user_rmt_mediaext example_config)
             \<and> is_ascii (user_download_mediaext example_config)"
    by code_simp
  have s: "classify example_env example_config (CHR 0xC3 # CHR 0x89 # ''.mkv'') = Streamable"
    by code_simp
  have g: "str_lower example_env (suffix_of (Path ''MOVIE.MKV''))
             = str_lower example_env (suffix_of (Path ''movie.mkv''))"
    by code_simp
  have e: "classify example_env example_config (CHR 0xC3 # CHR 0x89 # ''.MKV'')
             = classify example_env example_config (CHR 0xC3 # CHR 0x89 # ''.mkv'')"
    using classify_case_insensitive
      [of example_env example_config "CHR 0xC3 # CHR 0x89 # ''.MKV''"
          "CHR 0xC3 # CHR 0x89 # ''.mkv''" example_config] r h
    by simp
  have e2: "classify example_env example_config ''MOVIE.MKV''
             = classify example_env example_config ''movie.mkv''"
    using classify_case_insensitive
      [of example_env example_config "''MOVIE.MKV''" "''movie.mkv''" example_config] g
    by simp
  from h s e e2 show ?thesis by simp
qed

text \<open>
  The helper class compares \<open>file_path.suffix\<close> as written with the configured lists as
  written: there \<open>MOVIE.MKV\<close> is ignored where \<open>movie.mkv\<close> gets a pointer file.
\<close>
theorem helper_classify_case_sensitive:
  "helper_classify example_helper (Path ''/local/movies/MOVIE.MKV'') = Ignored
     \<and> helper_classify example_helper (Path ''/local/movies/movie.mkv'') = Streamable"
  by code_simp

section \<open>Properties: path mapping\<close>

lemma py_split_append:
  "py_split sep (a @ sep # b) = py_split sep a @ py_split sep b"
  by (induction a) (auto split: list.splits)

lemma py_join_split: "py_join [sep] (py_split sep s) = s"
proof (induction s)
  case Nil
  show ?case by simp
next
  case (Cons c s)
  obtain w ws where sp: "py_split sep s = w # ws"
    by (cases "py_split sep s") auto
  with Cons show ?case by (cases ws) auto
qed

lemma parse_tail_append:
  "parse_tail (a @ CHR ''/'' # b) = parse_tail a @ parse_tail b"
  by (simp add: parse_tail_def py_split_append)

lemma strip_with_prefix:
  "py_strip_with P s \<noteq> [] \<Longrightarrow> \<not> P (hd (py_strip_with P s))"
proof -
  assume ne: "py_strip_with P s \<noteq> []"
  define t where "t = dropWhile P s"
  have "py_strip_with P s = rev (dropWhile P (rev t))"
    by (simp add: py_strip_with_def py_rstrip_def py_lstrip_def t_def)
  also have "\<dots> = rev (drop (length (takeWhile P (rev t))) (rev t))"
    by (simp only: dropWhile_eq_drop)
  also have "\<dots> = take (length t - length (takeWhile P (rev t))) t"
    by (simp only: rev_drop rev_rev_ident length_rev)
  finally have eq: "py_strip_with P s = take (length t - length (takeWhile P (rev t))) t" .
  with ne have "t \<noteq> []" by auto
  then have "\<not> P (hd t)" unfolding t_def by (rule hd_dropWhile)
  moreover from eq ne have "hd (py_strip_with P s) = hd t"
    by (cases "length t - length (takeWhile P (rev t))") auto
  ultimately show ?thesis by simp
qed

lemma Path_relative:
  assumes "p \<noteq> []" "hd p \<noteq> CHR ''/''"
  shows "Path p = PurePath [] (parse_tail p)"
  using assms by (cases p) (auto simp: Path_def splitroot_def)

lemma local_target_eq:
  assumes "pan_path \<noteq> []" "hd pan_path \<noteq> CHR ''/''"
  shows "local_target local_root pan_path rel
           = Inr (PurePath (root (Path local_root)) (tail (Path local_root) @ parse_tail rel))"
proof -
  have a: "Path (pan_path @ CHR ''/'' # rel)
             = PurePath [] (parse_tail pan_path @ parse_tail rel)"
    using assms Path_relative [of "pan_path @ CHR ''/'' # rel"]
    by (simp add: parse_tail_append)
  have b: "Path pan_path = PurePath [] (parse_tail pan_path)"
    using assms by (rule Path_relative)
  show ?thesis
    by (simp add: local_target_def a b relative_to_def joinpath_def)
qed

text \<open>
  C9, as it holds: for every local root, every remote root that is not empty once its
  slashes are stripped (the passes skip the others), and every relative path in normal
  form, resolving the local target and stripping the local root gives the relative path back.
\<close>
theorem resolve_round_trip:
  assumes "strip_slash remote_root \<noteq> []" and "normal_relpath rel"
  shows "resolve_then_strip local_root (strip_slash remote_root) rel = Inr rel"
proof -
  have hd: "hd (strip_slash remote_root) \<noteq> CHR ''/''"
    using strip_with_prefix [of "\<lambda>c. c = CHR ''/''" remote_root] assms(1)
    by (simp add: strip_slash_def)
  have pt: "parse_tail rel = py_split CHR ''/'' rel"
    using assms(2) by (simp add: parse_tail_def normal_relpath_def list_all_iff)
  have "path_str (PurePath [] (py_split CHR ''/'' rel)) = rel"
    using py_join_split [of "CHR ''/''" rel] by (simp add: path_str_def)
  then show ?thesis
    by (simp add: resolve_then_strip_def local_target_eq [OF assms(1) hd] relative_to_def pt)
qed

theorem resolve_round_trip_witness:
  "strip_slash ''/media/movies/'' \<noteq> [] \<and> normal_relpath ''Season 1/A.mkv''
     \<and> resolve_then_strip ''/local/movies'' (strip_slash ''/media/movies/'') ''Season 1/A.mkv''
           = Inr ''Season 1/A.mkv''"
proof -
  have a: "strip_slash ''/media/movies/'' \<noteq> []" by code_simp
  have b: "normal_relpath ''Season 1/A.mkv''" by code_simp
  from a b resolve_round_trip [OF a b, of "''/local/movies''"] show ?thesis
    by (intro conjI)
qed

text \<open>
  A relative path with an empty segment does not come back: \<open>Path\<close> drops the segment.
\<close>
theorem resolve_round_trip_counterexample:
  "resolve_then_strip ''/local/movies'' (strip_slash ''/media/movies/'') ''a//b.mkv''
     = Inr ''a/b.mkv''
   \<and> resolve_then_strip ''/local/movies'' (strip_slash ''/media/movies/'') ''a//b.mkv''
       \<noteq> Inr ''a//b.mkv''"
  by code_simp

section \<open>Properties: the signed link\<close>

lemma unquote_Cons:
  assumes "c \<noteq> CHR ''%''"
  shows "unquote (c # xs) = c # unquote xs"
proof (cases xs)
  case Nil
  then show ?thesis by simp
next
  case (Cons a ys)
  with assms show ?thesis by (cases ys) simp_all
qed

lemma unquote_append: "CHR ''%'' \<notin> set a \<Longrightarrow> unquote (a @ p) = a @ unquote p"
  by (induction a) (auto simp: unquote_Cons)

lemma randint_range: "0 \<le> randint 0 (2 ^ 31 - 1) e \<and> randint 0 (2 ^ 31 - 1) e \<le> 2 ^ 31 - 1"
proof -
  have "0 \<le> e mod 2147483648" "e mod 2147483648 < 2147483648" by simp_all
  then show ?thesis by (simp add: randint_def)
qed

text \<open>
  C1, as it holds: with \<open>uid\<close>, \<open>secret_key\<close> and the domain configured, and no
  \<open>%\<close> in \<open>uid\<close>, the call returns the URL of the spec's form, built on the configured
  domain with its trailing slashes stripped and \<open>https://\<close> put in front when it has no
  scheme; the nonce lies in \<open>[0, 2^31 - 1]\<close>.
\<close>
theorem generate_auth_url_form:
  assumes "uid cfg \<noteq> []" and "secret_key cfg \<noteq> []" and "custom_domain cfg \<noteq> []"
    and "CHR ''%'' \<notin> set (uid cfg)"
  shows "generate_auth_url cfg now e path
           = Inr (claimed_auth_url (cfg\<lparr>custom_domain := signing_domain (custom_domain cfg)\<rparr>)
                    now (randint 0 (2 ^ 31 - 1) e) path)
         \<and> 0 \<le> randint 0 (2 ^ 31 - 1) e \<and> randint 0 (2 ^ 31 - 1) e \<le> 2 ^ 31 - 1"
proof -
  have rp: "unquote (''/'' @ uid cfg @ ''/'' @ path) = ''/'' @ uid cfg @ ''/'' @ unquote path"
  proof -
    have "unquote ((''/'' @ uid cfg @ ''/'') @ path) = (''/'' @ uid cfg @ ''/'') @ unquote path"
      by (rule unquote_append) (use assms(4) in simp)
    then show ?thesis by simp
  qed
  have "generate_auth_url cfg now e path
           = Inr (claimed_auth_url (cfg\<lparr>custom_domain := signing_domain (custom_domain cfg)\<rparr>)
                    now (randint 0 (2 ^ 31 - 1) e) path)"
    using assms(1-3) unfolding generate_auth_url_def claimed_auth_url_def signing_domain_def Let_def rp
    by simp
  with randint_range [of e] show ?thesis by blast
qed

theorem generate_auth_url_form_witness:
  "uid example_config \<noteq> [] \<and> secret_key example_config \<noteq> []
     \<and> custom_domain example_config \<noteq> [] \<and> CHR ''%'' \<notin> set (uid example_config)
     \<and> generate_auth_url example_config 1700000000 12345 ''media/movies/A%20b.mkv''
         = Inr ''https://vip.123pan.cn/1815309870/media/movies/A b.mkv?auth_key=1700000600-12345-1815309870-4e95072b38b421d1e297b9524e53be0d''"
proof -
  have a: "uid example_config \<noteq> []" by (simp add: example_config_def)
  have b: "secret_key example_config \<noteq> []" by (simp add: example_config_def)
  have c: "custom_domain example_config \<noteq> []" by (simp add: example_config_def)
  have d: "CHR ''%'' \<notin> set (uid example_config)" by (simp add: example_config_def)
  have v: "claimed_auth_url
             (example_config\<lparr>custom_domain := signing_domain (custom_domain example_config)\<rparr>)
             1700000000 (randint 0 (2 ^ 31 - 1) 12345) ''media/movies/A%20b.mkv''
           = ''https://vip.123pan.cn/1815309870/media/movies/A b.mkv?auth_key=1700000600-12345-1815309870-4e95072b38b421d1e297b9524e53be0d''"
    by code_simp
  from generate_auth_url_form [OF a b c d, of 1700000000 12345 "''media/movies/A%20b.mkv''"]
  have "generate_auth_url example_config 1700000000 12345 ''media/movies/A%20b.mkv''
          = Inr ''https://vip.123pan.cn/1815309870/media/movies/A b.mkv?auth_key=1700000600-12345-1815309870-4e95072b38b421d1e297b9524e53be0d''"
    by (simp only: v)
  with a b c d show ?thesis by (intro conjI)
qed

text \<open>
  With the configured domain \<open>vip.123pan.cn\<close> the URL starts with \<open>https://\<close>, which
  the form \<open>domain + request_path + \<dots>\<close> on the configured domain does not.
\<close>
theorem generate_auth_url_domain_counterexample:
  "generate_auth_url example_config 1700000000 12345 ''media/movies/A.mkv''
     \<noteq> Inr (claimed_auth_url example_config 1700000000 (randint 0 (2 ^ 31 - 1) 12345)
              ''media/movies/A.mkv'')"
  by (simp add: generate_auth_url_def claimed_auth_url_def example_config_def Let_def
        rstrip_slash_def py_rstrip_def startswith_def)

text \<open>
  \<open>unquote\<close> is applied to the whole of \<open>"/" + uid + "/" + path\<close>: an escape in
  \<open>uid\<close> is decoded in the request path too.
\<close>
lemma generate_auth_url_decodes_uid:
  "generate_auth_url (example_config\<lparr>uid := ''%41'', custom_domain := ''https://d''\<rparr>) 0 0 ''x''
     \<noteq> Inr (claimed_auth_url (example_config\<lparr>uid := ''%41'', custom_domain := ''https://d''\<rparr>)
              0 (randint 0 (2 ^ 31 - 1) 0) ''x'')"
  by (simp add: generate_auth_url_def claimed_auth_url_def example_config_def Let_def
        rstrip_slash_def py_rstrip_def startswith_def is_hex_def hex_val_def)

section \<open>Properties: the sync passes\<close>

lemma sync_entry_keeps:
  "last_sync_time (sync_entry ev cfg l p item w) = last_sync_time w
     \<and> saved_last_sync_time (sync_entry ev cfg l p item w) = saved_last_sync_time w
     \<and> clock_reads w \<le> clock_reads (sync_entry ev cfg l p item w)"
  by (simp add: sync_entry_def Let_def split: sum.splits category.splits)

lemma sync_entry_incremental_keeps:
  "last_sync_time (sync_entry_incremental ev cfg l p item w) = last_sync_time w
     \<and> saved_last_sync_time (sync_entry_incremental ev cfg l p item w) = saved_last_sync_time w
     \<and> clock_reads w \<le> clock_reads (sync_entry_incremental ev cfg l p item w)"
  using sync_entry_keeps [of ev cfg l p item w] by (simp add: sync_entry_incremental_def)

lemma sync_entries_keeps:
  "last_sync_time (sync_entries inc ev cfg l p items w) = last_sync_time w
     \<and> saved_last_sync_time (sync_entries inc ev cfg l p items w) = saved_last_sync_time w
     \<and> clock_reads w \<le> clock_reads (sync_entries inc ev cfg l p items w)"
proof (induction items arbitrary: w)
  case Nil
  show ?case by (simp add: sync_entries_def)
next
  case (Cons item items)
  define w1 where "w1 = (if inc then sync_entry_incremental ev cfg l p item w
                          else sync_entry ev cfg l p item w)"
  have step: "sync_entries inc ev cfg l p (item # items) w = sync_entries inc ev cfg l p items w1"
    by (simp add: sync_entries_def w1_def)
  have k: "last_sync_time w1 = last_sync_time w
             \<and> saved_last_sync_time w1 = saved_last_sync_time w
             \<and> clock_reads w \<le> clock_reads w1"
    using sync_entry_keeps [of ev cfg l p item w] sync_entry_incremental_keeps [of ev cfg l p item w]
    by (simp add: w1_def)
  from Cons [of w1] k show ?case unfolding step by auto
qed

lemma sync_entries_keeps_files:
  "last_sync_time (sync_entries inc ev cfg l p items (w\<lparr>files := fs\<rparr>)) = last_sync_time w
     \<and> saved_last_sync_time (sync_entries inc ev cfg l p items (w\<lparr>files := fs\<rparr>))
         = saved_last_sync_time w
     \<and> clock_reads w \<le> clock_reads (sync_entries inc ev cfg l p items (w\<lparr>files := fs\<rparr>))"
  using sync_entries_keeps [of inc ev cfg l p items "w\<lparr>files := fs\<rparr>"] by simp

lemma sync_pair_keeps:
  assumes "sync_pair inc ev cfg path w = Some (e, w')"
  shows "last_sync_time w' = last_sync_time w
     \<and> saved_last_sync_time w' = saved_last_sync_time w
     \<and> clock_reads w \<le> clock_reads w'"
  using assms
  by (auto simp: sync_pair_def Let_def bind_eq_Some_conv sync_entries_keeps_files
           split: if_splits sum.splits)

lemma sync_pairs_keeps:
  assumes "sync_pairs inc ev cfg paths w = Some (e, w')"
  shows "last_sync_time w' = last_sync_time w
     \<and> saved_last_sync_time w' = saved_last_sync_time w
     \<and> clock_reads w \<le> clock_reads w'"
  using assms
proof (induction paths arbitrary: w)
  case Nil
  then show ?case by simp
next
  case (Cons path paths)
  from Cons.prems obtain r where r: "sync_pair inc ev cfg path w = Some r"
    and rest: "(if fst r \<noteq> None then Some r else sync_pairs inc ev cfg paths (snd r)) = Some (e, w')"
    by (auto simp: bind_eq_Some_conv)
  have k: "last_sync_time (snd r) = last_sync_time w
     \<and> saved_last_sync_time (snd r) = saved_last_sync_time w
     \<and> clock_reads w \<le> clock_reads (snd r)"
    using sync_pair_keeps [of inc ev cfg path w "fst r" "snd r"] r by simp
  show ?case
  proof (cases "fst r \<noteq> None")
    case True
    with rest have "r = (e, w')" by simp
    with k show ?thesis by simp
  next
    case False
    with rest have "sync_pairs inc ev cfg paths (snd r) = Some (e, w')" by simp
    from Cons.IH [OF this] k show ?thesis by simp
  qed
qed

text \<open>
  The end-to-end scenario of the spec: the pair \<open>/local/movies#/media/movies\<close>, a drive
  holding \<open>A.mkv\<close> and \<open>A.nfo\<close> there, downloads off. The pass writes the signed link
  into \<open>A.strm\<close>, leaves \<open>A.nfo\<close> alone and stores the time read at its end.
\<close>
lemma full_sync_example:
  "(case full_sync_strm_files example_env example_config example_world of
      Some (r, w') \<Rightarrow>
        r = RBool True
        \<and> lookup_file ''/local/movies/A.strm'' (files w')
            = Some (File ''https://vip.123pan.cn/1815309870/media/movies/A.mkv?auth_key=1700000600-12345-1815309870-8d1ba74cfef8cf0a9c794f501a38d36a'')
        \<and> lookup_file ''/local/movies/A.nfo'' (files w') = None
        \<and> last_sync_time w' = 1700000001
    | None \<Rightarrow> False)"
  by code_simp

lemma full_sync_sidecar:
  "map_option fst (full_sync_strm_files example_env sidecar_config example_world) = Some (RBool True)"
  by code_simp

lemma full_sync_blocked:
  "map_option fst (full_sync_strm_files example_env sidecar_config blocked_world) = Some (RBool False)"
  by code_simp

lemma incremental_synced:
  "map_option fst (incremental_sync_files example_env sidecar_config synced_world) = Some (RBool True)"
  by code_simp

lemma incremental_blocked:
  "map_option fst (incremental_sync_files example_env sidecar_config blocked_world) = Some (RBool False)"
  by code_simp



lemma finish_pass_cases:
  assumes "finish_pass ev t w = (r, w')"
  shows "last_sync_time w' = t \<and> clock_reads w' = clock_reads w
         \<and> (r = RBool True \<longrightarrow>
               saved_last_sync_time w' = t \<and> update_config ev t = None
               \<and> fromtimestamp ev t = None)
         \<and> (r \<noteq> RBool True \<longrightarrow>
               r = RBool False
               \<and> (update_config ev t \<noteq> None \<and> saved_last_sync_time w' = saved_last_sync_time w
                    \<or> update_config ev t = None \<and> fromtimestamp ev t \<noteq> None
                        \<and> saved_last_sync_time w' = t))"
  using assms by (auto simp: finish_pass_def Let_def split: option.splits)

lemma full_sync_cases:
  assumes "full_sync_strm_files ev cfg w = Some (RBool b, w')"
  shows "(\<exists>e. sync_pairs False ev cfg (configured_paths ev cfg) w = Some (Some e, w') \<and> \<not> b)
         \<or> (\<exists>w1. sync_pairs False ev cfg (configured_paths ev cfg) w = Some (None, w1)
                \<and> finish_pass ev (time_at ev (clock_reads w1))
                     (w1\<lparr>clock_reads := Suc (clock_reads w1)\<rparr>) = (RBool b, w'))"
  using assms
  by (auto simp: full_sync_strm_files_def Let_def bind_eq_Some_conv split: if_splits)

lemma incremental_sync_cases:
  assumes "incremental_sync_files ev cfg w = Some (RBool b, w')" and "last_sync_time w \<noteq> 0"
  shows "(w' = w \<and> \<not> b \<and> fromtimestamp ev (last_sync_time w) \<noteq> None)
         \<or> (\<exists>e. sync_pairs True ev cfg (configured_paths ev cfg)
                    (w\<lparr>clock_reads := Suc (clock_reads w)\<rparr>) = Some (Some e, w') \<and> \<not> b)
         \<or> (\<exists>w1. sync_pairs True ev cfg (configured_paths ev cfg)
                    (w\<lparr>clock_reads := Suc (clock_reads w)\<rparr>) = Some (None, w1)
                \<and> finish_pass ev (time_at ev (clock_reads w)) w1 = (RBool b, w'))"
  using assms
  by (auto simp: incremental_sync_files_def Let_def bind_eq_Some_conv split: if_splits)

text \<open>A host that cannot save the configuration: the pass returns \<open>False\<close>, yet the sync
  time of the plugin has moved to the reading taken at the end; the saved copy has not.\<close>
lemma save_failure_advances:
  "map_option (\<lambda>r. (fst r, last_sync_time (snd r), saved_last_sync_time (snd r)))
     (full_sync_strm_files unsaved_env sidecar_config example_world)
     = Some (RBool False, 1700000000, 0)"
  by code_simp

text \<open>
  C4, as it holds. A full pass that returns \<open>True\<close> has stored and saved the clock reading
  it took last, after all the work on the pairs. An incremental pass with a previous sync
  time that returns \<open>True\<close> has stored and saved the reading it took first, before that
  work. Without a previous sync time the incremental pass ends in the world of the full pass,
  so with the reading taken at the end. A pass that returns \<open>False\<close> leaves both values as
  they were when neither saving the configuration nor printing the time raises; in general
  it either leaves them as they were or has reached its end, stored the reading, and failed
  in saving or printing it.
\<close>
theorem last_sync_time_update:
  "(full_sync_strm_files ev cfg w = Some (RBool True, w') \<longrightarrow>
      last_sync_time w' = time_at ev (clock_reads w' - 1)
      \<and> saved_last_sync_time w' = last_sync_time w'
      \<and> clock_reads w < clock_reads w')
   \<and> (last_sync_time w \<noteq> 0 \<and> incremental_sync_files ev cfg w = Some (RBool True, w') \<longrightarrow>
      last_sync_time w' = time_at ev (clock_reads w)
      \<and> saved_last_sync_time w' = last_sync_time w')
   \<and> (last_sync_time w = 0 \<and> full_sync_strm_files ev cfg w = Some (RBool True, w') \<longrightarrow>
      incremental_sync_files ev cfg w = Some (RNone, w'))
   \<and> ((\<forall>t. update_config ev t = None \<and> fromtimestamp ev t = None)
        \<and> full_sync_strm_files ev cfg w = Some (RBool False, w') \<longrightarrow>
      last_sync_time w' = last_sync_time w \<and> saved_last_sync_time w' = saved_last_sync_time w)
   \<and> ((\<forall>t. update_config ev t = None \<and> fromtimestamp ev t = None)
        \<and> last_sync_time w \<noteq> 0 \<and> incremental_sync_files ev cfg w = Some (RBool False, w') \<longrightarrow>
      last_sync_time w' = last_sync_time w \<and> saved_last_sync_time w' = saved_last_sync_time w)
   \<and> (full_sync_strm_files ev cfg w = Some (RBool False, w') \<longrightarrow>
      last_sync_time w' = last_sync_time w \<and> saved_last_sync_time w' = saved_last_sync_time w
      \<or> last_sync_time w' = time_at ev (clock_reads w' - 1)
          \<and> (update_config ev (last_sync_time w') \<noteq> None
               \<or> fromtimestamp ev (last_sync_time w') \<noteq> None))
   \<and> (last_sync_time w \<noteq> 0 \<and> incremental_sync_files ev cfg w = Some (RBool False, w') \<longrightarrow>
      last_sync_time w' = last_sync_time w \<and> saved_last_sync_time w' = saved_last_sync_time w
      \<or> last_sync_time w' = time_at ev (clock_reads w)
          \<and> (update_config ev (last_sync_time w') \<noteq> None
               \<or> fromtimestamp ev (last_sync_time w') \<noteq> None))"
proof -
  have full: "last_sync_time w' = time_at ev (clock_reads w' - 1)
               \<and> clock_reads w < clock_reads w'
               \<and> (b \<longrightarrow> saved_last_sync_time w' = last_sync_time w')
               \<and> (\<not> b \<longrightarrow> update_config ev (last_sync_time w') \<noteq> None
                            \<or> fromtimestamp ev (last_sync_time w') \<noteq> None)
             \<or> \<not> b \<and> last_sync_time w' = last_sync_time w
                 \<and> saved_last_sync_time w' = saved_last_sync_time w"
    if a: "full_sync_strm_files ev cfg w = Some (RBool b, w')" for b
    using full_sync_cases [OF a]
  proof (elim disjE exE conjE)
    fix e assume p: "sync_pairs False ev cfg (configured_paths ev cfg) w = Some (Some e, w')"
      and "\<not> b"
    with sync_pairs_keeps [OF p] show ?thesis by simp
  next
    fix w1 assume p: "sync_pairs False ev cfg (configured_paths ev cfg) w = Some (None, w1)"
      and f: "finish_pass ev (time_at ev (clock_reads w1))
                (w1\<lparr>clock_reads := Suc (clock_reads w1)\<rparr>) = (RBool b, w')"
    from sync_pairs_keeps [OF p] finish_pass_cases [OF f] show ?thesis
      by (cases b) auto
  qed
  have inc: "last_sync_time w' = time_at ev (clock_reads w)
               \<and> (b \<longrightarrow> saved_last_sync_time w' = last_sync_time w')
               \<and> (\<not> b \<longrightarrow> update_config ev (last_sync_time w') \<noteq> None
                            \<or> fromtimestamp ev (last_sync_time w') \<noteq> None)
             \<or> \<not> b \<and> last_sync_time w' = last_sync_time w
                 \<and> saved_last_sync_time w' = saved_last_sync_time w"
    if a: "incremental_sync_files ev cfg w = Some (RBool b, w')" and t: "last_sync_time w \<noteq> 0"
    for b
    using incremental_sync_cases [OF a t]
  proof (elim disjE exE conjE)
    assume "w' = w" and "\<not> b"
    then show ?thesis by simp
  next
    fix e assume p: "sync_pairs True ev cfg (configured_paths ev cfg)
                       (w\<lparr>clock_reads := Suc (clock_reads w)\<rparr>) = Some (Some e, w')"
      and "\<not> b"
    with sync_pairs_keeps [OF p] show ?thesis by simp
  next
    fix w1 assume p: "sync_pairs True ev cfg (configured_paths ev cfg)
                       (w\<lparr>clock_reads := Suc (clock_reads w)\<rparr>) = Some (None, w1)"
      and f: "finish_pass ev (time_at ev (clock_reads w)) w1 = (RBool b, w')"
    from finish_pass_cases [OF f] show ?thesis
      by (cases b) auto
  qed
  have c1: "full_sync_strm_files ev cfg w = Some (RBool True, w') \<longrightarrow>
      last_sync_time w' = time_at ev (clock_reads w' - 1)
      \<and> saved_last_sync_time w' = last_sync_time w'
      \<and> clock_reads w < clock_reads w'"
    using full [of True] by simp
  have c2: "last_sync_time w \<noteq> 0 \<and> incremental_sync_files ev cfg w = Some (RBool True, w') \<longrightarrow>
      last_sync_time w' = time_at ev (clock_reads w)
      \<and> saved_last_sync_time w' = last_sync_time w'"
    using inc [of True] by simp
  have c3: "last_sync_time w = 0 \<and> full_sync_strm_files ev cfg w = Some (RBool True, w') \<longrightarrow>
      incremental_sync_files ev cfg w = Some (RNone, w')"
  proof
    assume a: "last_sync_time w = 0 \<and> full_sync_strm_files ev cfg w = Some (RBool True, w')"
    then have "enabled cfg \<and> full_sync_strm_paths cfg \<noteq> [] \<and> uid cfg \<noteq> [] \<and> secret_key cfg \<noteq> []"
      by (auto simp: full_sync_strm_files_def split: if_splits)
    with a show "incremental_sync_files ev cfg w = Some (RNone, w')"
      by (simp add: incremental_sync_files_def)
  qed
  have c4: "(\<forall>t. update_config ev t = None \<and> fromtimestamp ev t = None)
        \<and> full_sync_strm_files ev cfg w = Some (RBool False, w') \<longrightarrow>
      last_sync_time w' = last_sync_time w \<and> saved_last_sync_time w' = saved_last_sync_time w"
    using full [of False] by auto
  have c5: "(\<forall>t. update_config ev t = None \<and> fromtimestamp ev t = None)
        \<and> last_sync_time w \<noteq> 0 \<and> incremental_sync_files ev cfg w = Some (RBool False, w') \<longrightarrow>
      last_sync_time w' = last_sync_time w \<and> saved_last_sync_time w' = saved_last_sync_time w"
    using inc [of False] by auto
  have c6: "full_sync_strm_files ev cfg w = Some (RBool False, w') \<longrightarrow>
      last_sync_time w' = last_sync_time w \<and> saved_last_sync_time w' = saved_last_sync_time w
      \<or> last_sync_time w' = time_at ev (clock_reads w' - 1)
          \<and> (update_config ev (last_sync_time w') \<noteq> None
               \<or> fromtimestamp ev (last_sync_time w') \<noteq> None)"
    using full [of False] by auto
  have c7: "last_sync_time w \<noteq> 0 \<and> incremental_sync_files ev cfg w = Some (RBool False, w') \<longrightarrow>
      last_sync_time w' = last_sync_time w \<and> saved_last_sync_time w' = saved_last_sync_time w
      \<or> last_sync_time w' = time_at ev (clock_reads w)
          \<and> (update_config ev (last_sync_time w') \<noteq> None
               \<or> fromtimestamp ev (last_sync_time w') \<noteq> None)"
    using inc [of False] by auto
  from c1 c2 c3 c4 c5 c6 c7 show ?thesis by (intro conjI)
qed

theorem last_sync_time_update_witness:
  "\<exists>w1 w2 w3 w4 w5.
     full_sync_strm_files example_env sidecar_config example_world = Some (RBool True, w1)
     \<and> last_sync_time w1 = time_at example_env (clock_reads w1 - 1)
     \<and> saved_last_sync_time w1 = last_sync_time w1
     \<and> clock_reads example_world < clock_reads w1
     \<and> last_sync_time example_world = 0
     \<and> incremental_sync_files example_env sidecar_config example_world = Some (RNone, w1)
     \<and> full_sync_strm_files example_env sidecar_config blocked_world = Some (RBool False, w2)
     \<and> last_sync_time w2 = last_sync_time blocked_world
     \<and> saved_last_sync_time w2 = saved_last_sync_time blocked_world
     \<and> last_sync_time synced_world = 200
     \<and> incremental_sync_files example_env sidecar_config synced_world = Some (RBool True, w3)
     \<and> last_sync_time w3 = time_at example_env (clock_reads synced_world)
     \<and> saved_last_sync_time w3 = last_sync_time w3
     \<and> last_sync_time blocked_world = 200
     \<and> incremental_sync_files example_env sidecar_config blocked_world = Some (RBool False, w4)
     \<and> last_sync_time w4 = last_sync_time blocked_world
     \<and> saved_last_sync_time w4 = saved_last_sync_time blocked_world
     \<and> full_sync_strm_files unsaved_env sidecar_config example_world = Some (RBool False, w5)
     \<and> last_sync_time w5 = time_at unsaved_env (clock_reads w5 - 1)
     \<and> last_sync_time w5 = 1700000000
     \<and> saved_last_sync_time w5 = 0"
proof -
  obtain w1 where 1: "full_sync_strm_files example_env sidecar_config example_world = Some (RBool True, w1)"
    using full_sync_sidecar by (auto simp: map_option_case split: option.splits)
  obtain w2 where 2: "full_sync_strm_files example_env sidecar_config blocked_world = Some (RBool False, w2)"
    using full_sync_blocked by (auto simp: map_option_case split: option.splits)
  obtain w3 where 3: "incremental_sync_files example_env sidecar_config synced_world = Some (RBool True, w3)"
    using incremental_synced by (auto simp: map_option_case split: option.splits)
  obtain w4 where 4: "incremental_sync_files example_env sidecar_config blocked_world = Some (RBool False, w4)"
    using incremental_blocked by (auto simp: map_option_case split: option.splits)
  obtain w5 where 5: "full_sync_strm_files unsaved_env sidecar_config example_world = Some (RBool False, w5)"
    and v: "last_sync_time w5 = 1700000000" and u: "saved_last_sync_time w5 = 0"
    using save_failure_advances by (auto simp: map_option_case split: option.splits)
  have z: "last_sync_time example_world = 0" by (simp add: example_world_def)
  have s: "last_sync_time synced_world = 200" by (simp add: synced_world_def example_world_def)
  have b: "last_sync_time blocked_world = 200" by (simp add: blocked_world_def)
  have h: "\<forall>t. update_config example_env t = None \<and> fromtimestamp example_env t = None"
    by (simp add: example_env_def)
  from last_sync_time_update [of example_env sidecar_config example_world w1] 1 z
  have a1: "last_sync_time w1 = time_at example_env (clock_reads w1 - 1)
     \<and> saved_last_sync_time w1 = last_sync_time w1
     \<and> clock_reads example_world < clock_reads w1
     \<and> incremental_sync_files example_env sidecar_config example_world = Some (RNone, w1)"
    by blast
  from last_sync_time_update [of example_env sidecar_config blocked_world w2] 2 h
  have a2: "last_sync_time w2 = last_sync_time blocked_world
     \<and> saved_last_sync_time w2 = saved_last_sync_time blocked_world" by blast
  from last_sync_time_update [of example_env sidecar_config synced_world w3] 3 s
  have a3: "last_sync_time w3 = time_at example_env (clock_reads synced_world)
     \<and> saved_last_sync_time w3 = last_sync_time w3" by simp
  from last_sync_time_update [of example_env sidecar_config blocked_world w4] 4 b h
  have a4: "last_sync_time w4 = last_sync_time blocked_world
     \<and> saved_last_sync_time w4 = saved_last_sync_time blocked_world" by simp
  from last_sync_time_update [of unsaved_env sidecar_config example_world w5] 5
  have "last_sync_time w5 = last_sync_time example_world
          \<and> saved_last_sync_time w5 = saved_last_sync_time example_world
        \<or> last_sync_time w5 = time_at unsaved_env (clock_reads w5 - 1)
            \<and> (update_config unsaved_env (last_sync_time w5) \<noteq> None
                 \<or> fromtimestamp unsaved_env (last_sync_time w5) \<noteq> None)"
    by blast
  with v z have a5: "last_sync_time w5 = time_at unsaved_env (clock_reads w5 - 1)" by simp
  from 1 2 3 4 5 z s b a1 a2 a3 a4 a5 v u show ?thesis by blast
qed

text \<open>
  The first run of the incremental pass (no previous sync time) ends without an exception
  and stores the reading taken at the end of the work, \<open>1700000001\<close>, where the pass
  started at the reading \<open>1700000000\<close>.
\<close>
theorem incremental_first_run_counterexample:
  "map_option (map_prod id last_sync_time)
     (incremental_sync_files example_env example_config example_world)
     = Some (RNone, 1700000001)
   \<and> last_sync_time example_world = 0
   \<and> time_at example_env (clock_reads example_world) = 1700000000"
proof -
  have i: "incremental_sync_files example_env example_config example_world
             = Option.bind (full_sync_strm_files example_env example_config example_world)
                 (\<lambda>r. Some (RNone, snd r))"
    by (simp add: incremental_sync_files_def example_config_def example_world_def)
  have "map_option (map_prod id last_sync_time)
          (incremental_sync_files example_env example_config example_world)
          = Some (RNone, 1700000001)"
    using full_sync_example unfolding i by (auto split: option.splits)
  moreover have "last_sync_time example_world = 0" by (simp add: example_world_def)
  moreover have "time_at example_env (clock_reads example_world) = 1700000000"
    by (simp add: example_env_def example_world_def)
  ultimately show ?thesis by (intro conjI)
qed

text \<open>
  C7, as it holds: when the plugin is disabled, the text of path pairs is empty, or \<open>uid\<close>
  or \<open>secret_key\<close> is empty, both passes return \<open>None\<close> with the world unchanged,
  whatever the drive, the clock and the generator are: nothing was read from them.
\<close>
theorem precondition_abort:
  assumes "\<not> enabled cfg \<or> full_sync_strm_paths cfg = [] \<or> uid cfg = [] \<or> secret_key cfg = []"
  shows "full_sync_strm_files ev cfg w = Some (RNone, w)
           \<and> incremental_sync_files ev cfg w = Some (RNone, w)"
  using assms by (auto simp: full_sync_strm_files_def incremental_sync_files_def)

theorem precondition_abort_witness:
  "uid (example_config\<lparr>uid := []\<rparr>) = []
   \<and> full_sync_strm_files example_env (example_config\<lparr>uid := []\<rparr>) example_world
       = Some (RNone, example_world)
   \<and> incremental_sync_files example_env (example_config\<lparr>uid := []\<rparr>) example_world
       = Some (RNone, example_world)"
proof -
  have u: "uid (example_config\<lparr>uid := []\<rparr>) = []" by simp
  then have h: "\<not> enabled (example_config\<lparr>uid := []\<rparr>)
      \<or> full_sync_strm_paths (example_config\<lparr>uid := []\<rparr>) = []
      \<or> uid (example_config\<lparr>uid := []\<rparr>) = []
      \<or> secret_key (example_config\<lparr>uid := []\<rparr>) = []"
    by blast
  from precondition_abort [OF h, of example_env example_world] u show ?thesis by blast
qed

text \<open>
  A text of path pairs that is one blank line configures no pair, yet passes the test of
  the code: the full pass runs, returns \<open>True\<close> and stores a new sync time.
\<close>
theorem blank_paths_counterexample:
  "configured_paths example_env (example_config\<lparr>full_sync_strm_paths := [CHR 0x0A]\<rparr>) = [[]]
   \<and> map_option (map_prod id last_sync_time)
       (full_sync_strm_files example_env (example_config\<lparr>full_sync_strm_paths := [CHR 0x0A]\<rparr>)
          example_world)
     = Some (RBool True, 1700000000)
   \<and> last_sync_time example_world = 0"
  by code_simp

text \<open>
  C8: with its preconditions met and \<open>last_sync_time = 0\<close>, the incremental pass is the
  full pass but for the value returned: it ends in the same world, so with the same files,
  and does not return where the full pass does not.
\<close>
theorem first_run_fallback:
  assumes "enabled cfg" and "full_sync_strm_paths cfg \<noteq> []" and "uid cfg \<noteq> []"
    and "secret_key cfg \<noteq> []" and "last_sync_time w = 0"
  shows "incremental_sync_files ev cfg w
           = map_option (\<lambda>r. (RNone, snd r)) (full_sync_strm_files ev cfg w)
         \<and> map_option (\<lambda>r. files (snd r)) (incremental_sync_files ev cfg w)
           = map_option (\<lambda>r. files (snd r)) (full_sync_strm_files ev cfg w)"
proof -
  have "incremental_sync_files ev cfg w
           = map_option (\<lambda>r. (RNone, snd r)) (full_sync_strm_files ev cfg w)"
    using assms by (cases "full_sync_strm_files ev cfg w") (simp_all add: incremental_sync_files_def)
  then show ?thesis by (simp add: option.map_comp comp_def)
qed

theorem first_run_fallback_witness:
  "enabled example_config \<and> full_sync_strm_paths example_config \<noteq> [] \<and> uid example_config \<noteq> []
     \<and> secret_key example_config \<noteq> [] \<and> last_sync_time example_world = 0
     \<and> incremental_sync_files example_env example_config example_world
           = map_option (\<lambda>r. (RNone, snd r))
               (full_sync_strm_files example_env example_config example_world)
     \<and> map_option (\<lambda>r. files (snd r))
           (incremental_sync_files example_env example_config example_world)
           = map_option (\<lambda>r. files (snd r))
               (full_sync_strm_files example_env example_config example_world)
     \<and> map_option fst (full_sync_strm_files example_env example_config example_world)
           = Some (RBool True)"
proof -
  have a: "enabled example_config" by (simp add: example_config_def)
  have b: "full_sync_strm_paths example_config \<noteq> []" by (simp add: example_config_def)
  have c: "uid example_config \<noteq> []" by (simp add: example_config_def)
  have d: "secret_key example_config \<noteq> []" by (simp add: example_config_def)
  have e: "last_sync_time example_world = 0" by (simp add: example_world_def)
  have f: "map_option fst (full_sync_strm_files example_env example_config example_world)
           = Some (RBool True)"
    using full_sync_example by (auto split: option.splits)
  from first_run_fallback [OF a b c d e, of example_env] a b c d e f
  show ?thesis by blast
qed

lemma resolve_dir_id_append:
  "resolve_dir_id api (xs @ ys) c
     = (case resolve_dir_id api xs c of Inl e \<Rightarrow> Inl e | Inr c' \<Rightarrow> resolve_dir_id api ys c')"
  by (induction xs arbitrary: c) (auto split: sum.splits option.splits)

lemma find_None_list_ex: "(find P xs = None) = (\<not> list_ex P xs)"
  by (induction xs) auto

text \<open>
  C10: the lookup of a segment reads one listing, the answer to the request with
  \<open>limit 100\<close> and \<open>next 0\<close>. When that answer holds no directory of the segment's name,
  whatever the drive would list on later pages, the lookup raises \<open>ValueError\<close> for the
  segment, and the pass leaves the pair having done no more than make its local directory.
\<close>
theorem lookup_reads_first_page_only:
  assumes "str_strip ev path \<noteq> []" and "py_split1 CHR ''#'' path = [local_path, pan_path]"
    and "\<not> isl (ensure_local_dir (files w) local_path)"
    and "py_split CHR ''/'' (strip_slash pan_path) = before @ part # rest"
    and "resolve_dir_id (fs_list ev) before 0 = Inr cur" and "part \<noteq> []"
    and "\<not> isl (first_page (fs_list ev) cur)"
    and "\<not> list_ex (\<lambda>item. FileName item = part \<and> Type item \<noteq> 0)
             (InfoList (projr (first_page (fs_list ev) cur)))"
  shows "resolve_dir_id (fs_list ev) (py_split CHR ''/'' (strip_slash pan_path)) 0
           = Inl (ValueError part)
         \<and> sync_pair incremental ev cfg path w
           = Some (None, w\<lparr>files := projr (ensure_local_dir (files w) local_path)\<rparr>)"
proof -
  obtain resp where resp: "first_page (fs_list ev) cur = Inr resp"
    using assms(7) by (cases "first_page (fs_list ev) cur") auto
  with assms(8) have none: "find (\<lambda>item. FileName item = part \<and> Type item \<noteq> 0) (InfoList resp) = None"
    by (simp add: find_None_list_ex)
  have r: "resolve_dir_id (fs_list ev) (py_split CHR ''/'' (strip_slash pan_path)) 0
           = Inl (ValueError part)"
    by (simp add: assms(4,5,6) resolve_dir_id_append resp none)
  obtain fs1 where fs1: "ensure_local_dir (files w) local_path = Inr fs1"
    using assms(3) by (cases "ensure_local_dir (files w) local_path") auto
  have ne: "strip_slash pan_path \<noteq> []"
  proof
    assume "strip_slash pan_path = []"
    with assms(4) have "[[]] = before @ part # rest" by simp
    with assms(6) show False by (cases before) auto
  qed
  have "sync_pair incremental ev cfg path w = Some (None, w\<lparr>files := fs1\<rparr>)"
    by (simp add: sync_pair_def assms(1,2) Let_def fs1 ne r)
  with r fs1 show ?thesis by simp
qed

theorem lookup_reads_first_page_only_witness:
  "str_strip crowded_env ''/local/movies#/movies'' \<noteq> []
   \<and> py_split1 CHR ''#'' ''/local/movies#/movies'' = [''/local/movies'', ''/movies'']
   \<and> \<not> isl (ensure_local_dir (files example_world) ''/local/movies'')
   \<and> py_split CHR ''/'' (strip_slash ''/movies'') = [] @ ''movies'' # []
   \<and> resolve_dir_id (fs_list crowded_env) [] 0 = Inr 0
   \<and> \<not> isl (first_page (fs_list crowded_env) 0)
   \<and> \<not> list_ex (\<lambda>item. FileName item = ''movies'' \<and> Type item \<noteq> 0)
          (InfoList (projr (first_page (fs_list crowded_env) 0)))
   \<and> list_ex (\<lambda>item. FileName item = ''movies'' \<and> Type item \<noteq> 0)
          (InfoList (projr (fs_list crowded_env
             \<lparr>limit = 100, pnext = 100, Page = Some 2, parentFileId = 0\<rparr>)))
   \<and> resolve_dir_id (fs_list crowded_env) (py_split CHR ''/'' (strip_slash ''/movies'')) 0
       = Inl (ValueError ''movies'')
   \<and> sync_pair False crowded_env example_config ''/local/movies#/movies'' example_world
       = Some (None, example_world
                 \<lparr>files := projr (ensure_local_dir (files example_world) ''/local/movies'')\<rparr>)"
proof -
  have a: "str_strip crowded_env ''/local/movies#/movies'' \<noteq> []" by code_simp
  have b: "py_split1 CHR ''#'' ''/local/movies#/movies'' = [''/local/movies'', ''/movies'']"
    by code_simp
  have c: "\<not> isl (ensure_local_dir (files example_world) ''/local/movies'')" by code_simp
  have d: "py_split CHR ''/'' (strip_slash ''/movies'') = [] @ ''movies'' # []" by code_simp
  have e: "resolve_dir_id (fs_list crowded_env) [] 0 = Inr 0" by simp
  have n: "''movies'' \<noteq> []" by simp
  have f: "\<not> isl (first_page (fs_list crowded_env) 0)" by code_simp
  have g: "\<not> list_ex (\<lambda>item. FileName item = ''movies'' \<and> Type item \<noteq> 0)
             (InfoList (projr (first_page (fs_list crowded_env) 0)))" by code_simp
  have h: "list_ex (\<lambda>item. FileName item = ''movies'' \<and> Type item \<noteq> 0)
             (InfoList (projr (fs_list crowded_env
               \<lparr>limit = 100, pnext = 100, Page = Some 2, parentFileId = 0\<rparr>)))"
    by code_simp
  from lookup_reads_first_page_only [OF a b c d e n f g, of False example_config]
    a b c d e f g h
  show ?thesis by blast
qed

text \<open>
  C5, for the two passes of the plugin: when the lookup of a pair's remote directory raises,
  or the traversal raises after yielding some entries, the loop goes on with the remaining
  pairs from the world reached so far, exactly as if the pair had ended normally there.
\<close>
theorem pair_errors_isolated:
  assumes "str_strip ev path \<noteq> []" and "py_split1 CHR ''#'' path = [local_path, pan_path]"
    and "\<not> isl (ensure_local_dir (files w) local_path)"
    and "strip_slash pan_path \<noteq> []"
  shows "(isl (resolve_dir_id (fs_list ev) (py_split CHR ''/'' (strip_slash pan_path)) 0) \<longrightarrow>
            sync_pairs incremental ev cfg (path # paths) w
              = sync_pairs incremental ev cfg paths
                  (w\<lparr>files := projr (ensure_local_dir (files w) local_path)\<rparr>))
         \<and> (resolve_dir_id (fs_list ev) (py_split CHR ''/'' (strip_slash pan_path)) 0 = Inr pid
              \<and> iterdir (fs_list ev) pid True = Some (items, Some e) \<longrightarrow>
            sync_pairs incremental ev cfg (path # paths) w
              = sync_pairs incremental ev cfg paths
                  (sync_entries incremental ev cfg local_path (strip_slash pan_path) items
                     (w\<lparr>files := projr (ensure_local_dir (files w) local_path)\<rparr>)))"
proof -
  obtain fs1 where fs1: "ensure_local_dir (files w) local_path = Inr fs1"
    using assms(3) by (cases "ensure_local_dir (files w) local_path") auto
  show ?thesis
  proof (intro conjI impI)
    assume "isl (resolve_dir_id (fs_list ev) (py_split CHR ''/'' (strip_slash pan_path)) 0)"
    then obtain x where "resolve_dir_id (fs_list ev) (py_split CHR ''/'' (strip_slash pan_path)) 0 = Inl x"
      by (cases "resolve_dir_id (fs_list ev) (py_split CHR ''/'' (strip_slash pan_path)) 0") auto
    then have "sync_pair incremental ev cfg path w = Some (None, w\<lparr>files := fs1\<rparr>)"
      by (simp add: sync_pair_def assms(1,2,4) Let_def fs1)
    then show "sync_pairs incremental ev cfg (path # paths) w
              = sync_pairs incremental ev cfg paths
                  (w\<lparr>files := projr (ensure_local_dir (files w) local_path)\<rparr>)"
      by (simp add: fs1)
  next
    assume "resolve_dir_id (fs_list ev) (py_split CHR ''/'' (strip_slash pan_path)) 0 = Inr pid
              \<and> iterdir (fs_list ev) pid True = Some (items, Some e)"
    then have "sync_pair incremental ev cfg path w
                 = Some (None, sync_entries incremental ev cfg local_path (strip_slash pan_path)
                                 items (w\<lparr>files := fs1\<rparr>))"
      by (simp add: sync_pair_def assms(1,2,4) Let_def fs1)
    then show "sync_pairs incremental ev cfg (path # paths) w
              = sync_pairs incremental ev cfg paths
                  (sync_entries incremental ev cfg local_path (strip_slash pan_path) items
                     (w\<lparr>files := projr (ensure_local_dir (files w) local_path)\<rparr>))"
      by (simp add: fs1)
  qed
qed

theorem pair_errors_isolated_witness:
  "str_strip example_env ''/local/a#/missing'' \<noteq> []
   \<and> py_split1 CHR ''#'' ''/local/a#/missing'' = [''/local/a'', ''/missing'']
   \<and> \<not> isl (ensure_local_dir (files example_world) ''/local/a'')
   \<and> strip_slash ''/missing'' \<noteq> []
   \<and> isl (resolve_dir_id (fs_list example_env) (py_split CHR ''/'' (strip_slash ''/missing'')) 0)
   \<and> sync_pairs False example_env sidecar_config
         (''/local/a#/missing'' # [''/local/movies#/media/movies'']) example_world
       = sync_pairs False example_env sidecar_config [''/local/movies#/media/movies'']
           (example_world\<lparr>files := projr (ensure_local_dir (files example_world) ''/local/a'')\<rparr>)
   \<and> str_strip failing_env ''/local/m#/media'' \<noteq> []
   \<and> py_split1 CHR ''#'' ''/local/m#/media'' = [''/local/m'', ''/media'']
   \<and> \<not> isl (ensure_local_dir (files example_world) ''/local/m'')
   \<and> strip_slash ''/media'' \<noteq> []
   \<and> resolve_dir_id (fs_list failing_env) (py_split CHR ''/'' (strip_slash ''/media'')) 0 = Inr 10
   \<and> iterdir (fs_list failing_env) 10 True = Some ([], Some (RemoteError ''listing failed''))
   \<and> sync_pairs False failing_env sidecar_config
         (''/local/m#/media'' # [''/local/movies#/media/movies'']) example_world
       = sync_pairs False failing_env sidecar_config [''/local/movies#/media/movies'']
           (sync_entries False failing_env sidecar_config ''/local/m'' (strip_slash ''/media'') []
              (example_world\<lparr>files := projr (ensure_local_dir (files example_world) ''/local/m'')\<rparr>))"
proof -
  have a: "str_strip example_env ''/local/a#/missing'' \<noteq> []" by code_simp
  have b: "py_split1 CHR ''#'' ''/local/a#/missing'' = [''/local/a'', ''/missing'']" by code_simp
  have c: "\<not> isl (ensure_local_dir (files example_world) ''/local/a'')" by code_simp
  have d: "strip_slash ''/missing'' \<noteq> []" by code_simp
  have e: "isl (resolve_dir_id (fs_list example_env)
                  (py_split CHR ''/'' (strip_slash ''/missing'')) 0)" by code_simp
  have f: "str_strip failing_env ''/local/m#/media'' \<noteq> []" by code_simp
  have g: "py_split1 CHR ''#'' ''/local/m#/media'' = [''/local/m'', ''/media'']" by code_simp
  have h: "\<not> isl (ensure_local_dir (files example_world) ''/local/m'')" by code_simp
  have i: "strip_slash ''/media'' \<noteq> []" by code_simp
  have j: "resolve_dir_id (fs_list failing_env) (py_split CHR ''/'' (strip_slash ''/media'')) 0
             = Inr 10" by code_simp
  have k: "iterdir (fs_list failing_env) 10 True = Some ([], Some (RemoteError ''listing failed''))"
    by code_simp
  from pair_errors_isolated [OF a b c d, of False sidecar_config
         "[''/local/movies#/media/movies'']"] e
  have 1: "sync_pairs False example_env sidecar_config
         (''/local/a#/missing'' # [''/local/movies#/media/movies'']) example_world
       = sync_pairs False example_env sidecar_config [''/local/movies#/media/movies'']
           (example_world\<lparr>files := projr (ensure_local_dir (files example_world) ''/local/a'')\<rparr>)"
    by blast
  from pair_errors_isolated [OF f g h i, of False sidecar_config
         "[''/local/movies#/media/movies'']" 10 "[]" "RemoteError ''listing failed''"] j k
  have 2: "sync_pairs False failing_env sidecar_config
         (''/local/m#/media'' # [''/local/movies#/media/movies'']) example_world
       = sync_pairs False failing_env sidecar_config [''/local/movies#/media/movies'']
           (sync_entries False failing_env sidecar_config ''/local/m'' (strip_slash ''/media'') []
              (example_world\<lparr>files := projr (ensure_local_dir (files example_world) ''/local/m'')\<rparr>))"
    by blast
  from a b c d e 1 f g h i j k 2 show ?thesis by (intro conjI)
qed

text \<open>
  The helper class stops at the first pair whose remote directory it cannot find: it
  returns \<open>False\<close> and the pair after it gets no pointer file, which it gets when it is
  the only pair.
\<close>
theorem generate_strm_files_stops_counterexample:
  "map_option fst
     (generate_strm_files example_env
        (''/local/a#/missing'' @ [CHR 0x0A] @ ''/local/movies#/media/movies'')
        (example_helper, files example_world)) = Some (Inr False)
   \<and> map_option (lookup_file ''/local/movies/A.strm'' \<circ> snd \<circ> snd)
       (generate_strm_files example_env
          (''/local/a#/missing'' @ [CHR 0x0A] @ ''/local/movies#/media/movies'')
          (example_helper, files example_world)) = Some None
   \<and> map_option (lookup_file ''/local/movies/A.strm'' \<circ> snd \<circ> snd)
       (generate_strm_files example_env ''/local/movies#/media/movies''
          (example_helper, files example_world))
     = Some (Some (File ''http://moviepilot:3000/api/v1/plugin/p123linker/redirect_url?apikey=token&name=A.mkv&size=100&md5=h1&s3_key_flag=k1''))"
  by code_simp

section \<open>Properties: the traversal\<close>

lemma page_yields_append:
  "page_yields only pid path (xs @ ys) = page_yields only pid path xs @ page_yields only pid path ys"
  by (simp add: page_yields_def)

lemma page_enqueues_append:
  "page_enqueues path (xs @ ys) = page_enqueues path xs @ page_enqueues path ys"
  by (simp add: page_enqueues_def)

lemma tree_page:
  assumes "map_of ((root_id, forest) # dirs_of forest) pid = Some cs"
  shows "tree_fs_list root_id forest \<lparr>limit = 100, pnext = int off, Page = pg, parentFileId = pid\<rparr>
           = Inr \<lparr>InfoList = map info_of (take 100 (drop off cs)),
                  Next = (if off + 100 < length cs then int (off + 100) else - 1)\<rparr>"
  using assms by (simp add: tree_fs_list_def Let_def)

lemma iterdir_pages_tree:
  assumes "map_of ((root_id, forest) # dirs_of forest) pid = Some cs"
  shows "iterdir_pages (tree_fs_list root_id forest) only pid path page (int off)
           = Some (page_yields only pid path (map info_of (drop off cs)),
                   page_enqueues path (map info_of (drop off cs)), None)"
proof (induction "length cs - off" arbitrary: off page rule: less_induct)
  case less
  note pg = tree_page [OF assms, of off "Some page"]
  show ?case
  proof (cases "off + 100 < length cs")
    case True
    then have ne: "take 100 (drop off cs) \<noteq> []" by simp
    have ih: "iterdir_pages (tree_fs_list root_id forest) only pid path (page + 1) (int (off + 100))
           = Some (page_yields only pid path (map info_of (drop (off + 100) cs)),
                   page_enqueues path (map info_of (drop (off + 100) cs)), None)"
      using True by (intro less) simp
    have split: "drop off cs = take 100 (drop off cs) @ drop (off + 100) cs"
      by (metis add.commute append_take_drop_id drop_drop)
    have "iterdir_pages (tree_fs_list root_id forest) only pid path page (int off)
            = Some (page_yields only pid path (map info_of (take 100 (drop off cs)))
                      @ page_yields only pid path (map info_of (drop (off + 100) cs)),
                    page_enqueues path (map info_of (take 100 (drop off cs)))
                      @ page_enqueues path (map info_of (drop (off + 100) cs)), None)"
      by (subst iterdir_pages.simps) (use True ne ih in \<open>simp add: pg\<close>)
    also have "\<dots> = Some (page_yields only pid path (map info_of (drop off cs)),
                   page_enqueues path (map info_of (drop off cs)), None)"
      by (subst (3 4) split) (simp only: map_append page_yields_append page_enqueues_append)
    finally show ?thesis .
  next
    case False
    then have all: "take 100 (drop off cs) = drop off cs" by simp
    show ?thesis
      by (subst iterdir_pages.simps)
         (use False in \<open>simp add: pg all page_yields_def page_enqueues_def\<close>)
  qed
qed

lemma page_yields_tree:
  "page_yields only pid path (map info_of cs) = entries_of only pid path cs"
  by (induction only pid path cs rule: entries_of.induct) (auto simp: page_yields_def)

lemma page_enqueues_tree:
  "page_enqueues path (map info_of cs) = map (\<lambda>d. (fst d, fst (snd d))) (sub_dirs_of path cs)"
  by (induction path cs rule: sub_dirs_of.induct) (auto simp: page_enqueues_def)

lemma dirs_of_child: "RDir i ds \<in> set ns \<Longrightarrow> (FileId i, ds) \<in> set (dirs_of ns)"
  by (induction ns rule: dirs_of.induct) auto

lemma dirs_of_nested: "(pid, cs) \<in> set (dirs_of ns) \<Longrightarrow> set (dirs_of cs) \<subseteq> set (dirs_of ns)"
  by (induction ns rule: dirs_of.induct) auto

lemma sub_dirs_of_child:
  "d \<in> set (sub_dirs_of path cs) \<Longrightarrow> \<exists>i. RDir i (snd (snd d)) \<in> set cs \<and> fst d = FileId i"
  by (induction path cs rule: sub_dirs_of.induct) auto

lemma known_sub_dirs:
  assumes "known root_id forest d" and "d' \<in> set (sub_dirs d)"
  shows "known root_id forest d'"
proof -
  from assms(2) obtain i where i: "RDir i (snd (snd d')) \<in> set (snd (snd d))" "fst d' = FileId i"
    using sub_dirs_of_child by (fastforce simp: sub_dirs_def)
  then have c: "(fst d', snd (snd d')) \<in> set (dirs_of (snd (snd d)))"
    using dirs_of_child by fastforce
  from assms(1) consider "snd (snd d) = forest" | "(fst d, snd (snd d)) \<in> set (dirs_of forest)"
    by (auto simp: known_def)
  then show ?thesis
  proof cases
    case 1
    with c show ?thesis by (simp add: known_def)
  next
    case 2
    from dirs_of_nested [OF 2] c show ?thesis by (auto simp: known_def)
  qed
qed

lemma iterdir_queue_tree:
  assumes "distinct (root_id # map fst (dirs_of forest))"
  shows "list_all (known root_id forest) queue \<Longrightarrow>
         iterdir_queue (tree_fs_list root_id forest) only (map (\<lambda>d. (fst d, fst (snd d))) queue)
           = Some (bfs_queue only queue, None)"
proof (induction only queue rule: bfs_queue.induct)
  case (1 only)
  show ?case by (subst iterdir_queue.simps) simp
next
  case (2 only d queue)
  from "2.prems" have kd: "known root_id forest d" and kq: "list_all (known root_id forest) queue"
    by simp_all
  have "map_of ((root_id, forest) # dirs_of forest) (fst d) = Some (snd (snd d))"
    using kd assms by (intro map_of_is_SomeI) (simp_all add: known_def)
  from iterdir_pages_tree [OF this, of only "fst (snd d)" 1 0]
  have pages: "iterdir_pages (tree_fs_list root_id forest) only (fst d) (fst (snd d)) 1 0
                 = Some (dir_entries only d, map (\<lambda>d. (fst d, fst (snd d))) (sub_dirs d), None)"
    by (simp add: page_yields_tree page_enqueues_tree dir_entries_def sub_dirs_def)
  have "list_all (known root_id forest) (queue @ sub_dirs d)"
    using kq known_sub_dirs [OF kd] by (auto simp: list_all_iff)
  from "2.IH" [OF this]
  have rest: "iterdir_queue (tree_fs_list root_id forest) only
                (map (\<lambda>d. (fst d, fst (snd d))) queue
                   @ map (\<lambda>d. (fst d, fst (snd d))) (sub_dirs d))
              = Some (bfs_queue only (queue @ sub_dirs d), None)"
    by simp
  show ?case
    by (subst iterdir_queue.simps) (simp add: pages rest)
qed

lemma bfs_queue_append:
  "bfs_queue only (q @ r)
     = concat (map (dir_entries only) q) @ bfs_queue only (r @ concat (map sub_dirs q))"
proof (induction q arbitrary: r)
  case Nil
  show ?case by simp
next
  case (Cons d q)
  have "bfs_queue only ((d # q) @ r) = dir_entries only d @ bfs_queue only (q @ (r @ sub_dirs d))"
    by simp
  also have "\<dots> = dir_entries only d @ concat (map (dir_entries only) q)
                      @ bfs_queue only ((r @ sub_dirs d) @ concat (map sub_dirs q))"
    by (simp only: Cons [of "r @ sub_dirs d"])
  finally show ?case by simp
qed

lemma bfs_queue_level_order: "bfs_queue only lvl = level_order only lvl"
proof (induction only lvl rule: level_order.induct)
  case (1 only lvl)
  show ?case
  proof (cases "lvl = []")
    case True
    then show ?thesis by (simp add: level_order.simps)
  next
    case False
    have "bfs_queue only lvl
            = concat (map (dir_entries only) lvl) @ bfs_queue only (concat (map sub_dirs lvl))"
      using bfs_queue_append [of only lvl "[]"] by simp
    with "1" [OF False] False show ?thesis
      by (subst level_order.simps) simp
  qed
qed

lemma all_entries_split:
  "mset (all_entries pid p cs)
     = mset (entries_of False pid p cs)
       + mset (concat (map (\<lambda>d. all_entries (fst d) (fst (snd d)) (snd (snd d)))
                         (sub_dirs_of p cs)))"
  by (induction pid p cs rule: all_entries.induct) simp_all

lemma level_all_entries_split:
  "mset (concat (map (\<lambda>d. all_entries (fst d) (fst (snd d)) (snd (snd d))) lvl))
     = mset (concat (map (dir_entries False) lvl))
       + mset (concat (map (\<lambda>d. all_entries (fst d) (fst (snd d)) (snd (snd d)))
                         (concat (map sub_dirs lvl))))"
  by (induction lvl) (simp_all add: all_entries_split dir_entries_def sub_dirs_def)

lemma level_order_mset:
  "mset (level_order False lvl)
     = mset (concat (map (\<lambda>d. all_entries (fst d) (fst (snd d)) (snd (snd d))) lvl))"
proof (induction "False" lvl rule: level_order.induct)
  case (1 lvl)
  show ?case
  proof (cases "lvl = []")
    case True
    then show ?thesis by (simp add: level_order.simps)
  next
    case False
    from "1" [OF False] show ?thesis
      by (subst level_order.simps, subst level_all_entries_split) (simp add: False)
  qed
qed

lemma entries_of_files:
  "entries_of True pid p cs = filter (\<lambda>e. \<not> is_dir e) (entries_of False pid p cs)"
  by (induction "True" pid p cs rule: entries_of.induct) (simp_all add: make_entry_def)

lemma level_order_files:
  "level_order True lvl = filter (\<lambda>e. \<not> is_dir e) (level_order False lvl)"
proof (induction "False" lvl rule: level_order.induct)
  case (1 lvl)
  show ?case
  proof (cases "lvl = []")
    case True
    then show ?thesis by (simp add: level_order.simps)
  next
    case False
    have "concat (map (dir_entries True) lvl)
            = filter (\<lambda>e. \<not> is_dir e) (concat (map (dir_entries False) lvl))"
      by (induction lvl) (simp_all add: dir_entries_def entries_of_files)
    with "1" [OF False] False show ?thesis
      by (subst (1 2) level_order.simps) simp
  qed
qed

lemma py_join_snoc:
  "py_join sep (xs @ [x]) = (if xs = [] then x else py_join sep xs @ sep @ x)"
  by (induction sep xs rule: py_join.induct) auto

lemma py_join_empty: "[] \<notin> set xs \<Longrightarrow> (py_join sep xs = []) = (xs = [])"
  by (induction sep xs rule: py_join.induct) auto

lemma item_path_joined:
  assumes "[] \<notin> set upper"
  shows "item_path (py_join ''/'' upper) i = py_join ''/'' (upper @ [FileName i])"
  using py_join_empty [OF assms, of "''/''"] by (simp add: item_path_def py_join_snoc)

lemma relpath_make_entry: "relpath (make_entry pid p i) = item_path p i"
  by (simp add: make_entry_def)

lemma all_entries_joined:
  "[] \<notin> set upper \<Longrightarrow> [] \<notin> set (node_names forest) \<Longrightarrow>
   map relpath (all_entries pid (py_join ''/'' upper) forest) = joined_paths upper forest"
proof (induction upper forest arbitrary: pid rule: joined_paths.induct)
  case (1 upper)
  show ?case by simp
next
  case (2 upper i ns)
  have p: "item_path (py_join ''/'' upper) (i\<lparr>Type := 0\<rparr>) = py_join ''/'' (upper @ [FileName i])"
    using item_path_joined [OF "2.prems"(1), of "i\<lparr>Type := 0\<rparr>"] by simp
  from "2.prems" have "[] \<notin> set (node_names ns)" by auto
  from "2.IH" [OF "2.prems"(1) this] show ?case
    by (simp add: relpath_make_entry p)
next
  case (3 upper i cs ns)
  from "3.prems" have n: "FileName i \<noteq> []" "[] \<notin> set (node_names cs)" "[] \<notin> set (node_names ns)"
    by auto
  have p: "item_path (py_join ''/'' upper) (i\<lparr>Type := 1\<rparr>) = py_join ''/'' (upper @ [FileName i])"
    using item_path_joined [OF "3.prems"(1), of "i\<lparr>Type := 1\<rparr>"] by simp
  have a: "[] \<notin> set (upper @ [FileName i])" using "3.prems"(1) n(1) by auto
  show ?case
    using "3.IH"(1) [OF a n(2)] "3.IH"(2) [OF "3.prems"(1) n(3)]
    by (simp add: relpath_make_entry p)
qed

text \<open>
  C2: on the drive that serves a finite tree whose directories, the root among them, have
  distinct ids, \<open>iterdir\<close> started at the root returns, raises nothing, and yields the
  entries in breadth-first level order; that order holds every node of the tree exactly
  once; with \<open>only_file\<close> it is the same order with the directories left out; and when
  no name is empty the \<open>relpath\<close> of a node is its names from the root joined by slashes.
\<close>
theorem iterdir_level_order:
  assumes "distinct (root_id # map fst (dirs_of forest))"
  shows "iterdir (tree_fs_list root_id forest) root_id only_files
           = Some (level_order only_files [(root_id, [], forest)], None)
         \<and> mset (level_order False [(root_id, [], forest)]) = mset (all_entries root_id [] forest)
         \<and> level_order True [(root_id, [], forest)]
             = filter (\<lambda>e. \<not> is_dir e) (level_order False [(root_id, [], forest)])
         \<and> ([] \<notin> set (node_names forest) \<longrightarrow>
              map relpath (all_entries root_id [] forest) = joined_paths [] forest)"
proof -
  have "list_all (known root_id forest) [(root_id, [], forest)]"
    by (simp add: known_def)
  from iterdir_queue_tree [OF assms this, of only_files]
  have "iterdir (tree_fs_list root_id forest) root_id only_files
           = Some (level_order only_files [(root_id, [], forest)], None)"
    by (simp add: iterdir_def bfs_queue_level_order)
  moreover have "mset (level_order False [(root_id, [], forest)]) = mset (all_entries root_id [] forest)"
    by (simp add: level_order_mset)
  moreover have "[] \<notin> set (node_names forest) \<longrightarrow>
              map relpath (all_entries root_id [] forest) = joined_paths [] forest"
    using all_entries_joined [of "[]" forest root_id] by simp
  ultimately show ?thesis using level_order_files by blast
qed

theorem iterdir_level_order_witness:
  "distinct (0 # map fst (dirs_of bfs_forest)) \<and> [] \<notin> set (node_names bfs_forest)
   \<and> map_option (map relpath \<circ> fst) (iterdir (tree_fs_list 0 bfs_forest) 0 False)
       = Some [''a'', ''r1.mkv'', ''b'', ''a/a1.mkv'', ''a/a2'', ''b/b1.mkv'', ''a/a2/x.mkv'']
   \<and> map_option (map relpath \<circ> fst) (iterdir (tree_fs_list 0 bfs_forest) 0 True)
       = Some [''r1.mkv'', ''a/a1.mkv'', ''b/b1.mkv'', ''a/a2/x.mkv'']
   \<and> map_option snd (iterdir (tree_fs_list 0 bfs_forest) 0 True) = Some None
   \<and> mset (level_order False [(0, [], bfs_forest)]) = mset (all_entries 0 [] bfs_forest)
   \<and> map relpath (all_entries 0 [] bfs_forest)
       = [''a'', ''a/a1.mkv'', ''a/a2'', ''a/a2/x.mkv'', ''r1.mkv'', ''b'', ''b/b1.mkv'']"
proof -
  have d: "distinct (0 # map fst (dirs_of bfs_forest))" by code_simp
  have n: "[] \<notin> set (node_names bfs_forest)" by code_simp
  have f: "map relpath (level_order False [(0, [], bfs_forest)])
             = [''a'', ''r1.mkv'', ''b'', ''a/a1.mkv'', ''a/a2'', ''b/b1.mkv'', ''a/a2/x.mkv'']"
    by code_simp
  have t: "map relpath (level_order True [(0, [], bfs_forest)])
             = [''r1.mkv'', ''a/a1.mkv'', ''b/b1.mkv'', ''a/a2/x.mkv'']"
    by code_simp
  have j: "joined_paths [] bfs_forest
             = [''a'', ''a/a1.mkv'', ''a/a2'', ''a/a2/x.mkv'', ''r1.mkv'', ''b'', ''b/b1.mkv'']"
    by code_simp
  note th = iterdir_level_order [OF d]
  have 1: "map_option (map relpath \<circ> fst) (iterdir (tree_fs_list 0 bfs_forest) 0 False)
       = Some [''a'', ''r1.mkv'', ''b'', ''a/a1.mkv'', ''a/a2'', ''b/b1.mkv'', ''a/a2/x.mkv'']"
    using th [of False] f by simp
  have 2: "map_option (map relpath \<circ> fst) (iterdir (tree_fs_list 0 bfs_forest) 0 True)
       = Some [''r1.mkv'', ''a/a1.mkv'', ''b/b1.mkv'', ''a/a2/x.mkv'']"
    using th [of True] t by simp
  have 3: "map_option snd (iterdir (tree_fs_list 0 bfs_forest) 0 True) = Some None"
    using th [of True] by simp
  have 4: "mset (level_order False [(0, [], bfs_forest)]) = mset (all_entries 0 [] bfs_forest)"
    using th [of False] by blast
  have 5: "map relpath (all_entries 0 [] bfs_forest)
       = [''a'', ''a/a1.mkv'', ''a/a2'', ''a/a2/x.mkv'', ''r1.mkv'', ''b'', ''b/b1.mkv'']"
    using th [of False] n j by simp
  from d n 1 2 3 4 5 show ?thesis by (intro conjI)
qed

end
